theory Spec2Isabelle
  imports Complex_Main "HOL-Library.Word"
begin

section \<open>Errors\<close>

text \<open>
  The exceptions the keypoint head and the array operations it calls can raise. The last
  constructor is not a Python exception: tensor elements are modelled as real numbers, and
  \<open>NonFinite\<close> marks a float result (inf or nan, from a division by zero or from a sum that
  leaves the range of the floats) that a real number cannot hold. Rounding is outside the
  model.
\<close>

datatype error =
    AssertionError
  | AttributeError
  | IndexError
  | NameError
  | NotImplementedError
  | RuntimeError
  | ValueError
  | NonFinite

section \<open>The module namespace\<close>

text \<open>
  A Python function looks a global name up when the line that uses it runs: in the
  namespace of its module, then among the builtins. The names below are the ones
  \<open>keypoint_head.py\<close> binds at module level: its imports (lines 2 to 10) and its own
  top-level assignments, functions and classes, in source order. The name \<open>weight_init\<close>
  is not among them, nor is it a builtin; the sibling heads of the detector bind it to the
  initialisation module of \<open>fvcore\<close> by an import that this file lacks. A lookup here
  either finds the name bound or raises NameError.
\<close>

definition module_globals :: "string list" where
  "module_globals =
     [''List'', ''torch'', ''nn'', ''F'',
      ''Conv2d'', ''ConvTranspose2d'', ''ShapeSpec'', ''cat'', ''interpolate'',
      ''Instances'', ''heatmaps_to_keypoints'', ''get_event_storage'', ''Registry'',
      ''_TOTAL_SKIPPED'', ''ROI_KEYPOINT_HEAD_REGISTRY'', ''build_keypoint_head'',
      ''keypoint_rcnn_loss'', ''keypoint_rcnn_inference'', ''_NewEmptyTensorOp'', ''Max'',
      ''SpatialAttention'', ''BaseKeypointRCNNHead'', ''KRCNNConvDeconvUpsampleHead'']"

definition lookup_global :: "string list \<Rightarrow> string \<Rightarrow> error + unit" where
  "lookup_global globals name = (if name \<in> set globals then Inr () else Inl NameError)"

section \<open>The network, at the level of tensor shapes\<close>

text \<open>
  The forward pass of the attention gate and of the head is followed on the shape
  \<open>(R, C, H, W)\<close> of its 4-D tensors: the shape alone decides every branch and every
  error of these functions. The element values come from the numeric primitives, which are
  external.
\<close>

type_synonym shape4 = "nat \<times> nat \<times> nat \<times> nat"

fun numel4 :: "shape4 \<Rightarrow> nat" where
  "numel4 (n, c, h, w) = n * c * h * w"

record conv2d =
  in_channels :: nat
  out_channels :: nat
  kernel_size :: nat
  stride :: nat
  padding :: nat

text \<open>
  Modelled from the spec: \<open>Conv2d\<close>, \<open>ConvTranspose2d\<close> and \<open>interpolate\<close>
  (\<open>detectron2.layers\<close>) are not under src/. Only the shape they produce is modelled, by the
  usual size formulas, computed over the integers as Python does; a channel count that does
  not match the layer's is a runtime error of the array library.
\<close>

definition conv_out :: "nat \<Rightarrow> conv2d \<Rightarrow> nat" where
  "conv_out i c =
     nat ((int i + 2 * int (padding c) - int (kernel_size c)) div int (stride c) + 1)"

definition deconv_out :: "nat \<Rightarrow> conv2d \<Rightarrow> nat" where
  "deconv_out i c =
     nat ((int i - 1) * int (stride c) - 2 * int (padding c) + int (kernel_size c))"

fun Conv2d_forward :: "conv2d \<Rightarrow> shape4 \<Rightarrow> error + shape4" where
  "Conv2d_forward c (n, ch, h, w) =
     (if ch = in_channels c \<and> stride c \<noteq> 0
      then Inr (n, out_channels c, conv_out h c, conv_out w c)
      else Inl RuntimeError)"

fun ConvTranspose2d_forward :: "conv2d \<Rightarrow> shape4 \<Rightarrow> error + shape4" where
  "ConvTranspose2d_forward c (n, ch, h, w) =
     (if ch = in_channels c \<and> stride c \<noteq> 0
      then Inr (n, out_channels c, deconv_out h c, deconv_out w c)
      else Inl RuntimeError)"

fun interpolate :: "shape4 \<Rightarrow> nat \<Rightarrow> shape4" where
  "interpolate (n, c, h, w) scale_factor = (n, c, h * scale_factor, w * scale_factor)"

text \<open>
  The array library's element-wise activations, which keep the shape, and its reductions,
  concatenation and broadcast product.
\<close>

definition relu :: "shape4 \<Rightarrow> shape4" where
  "relu x = x"

definition sigmoid :: "shape4 \<Rightarrow> shape4" where
  "sigmoid x = x"

fun torch_mean_dim1 :: "shape4 \<Rightarrow> shape4" where
  "torch_mean_dim1 (n, c, h, w) = (n, 1, h, w)"

fun torch_max_dim1 :: "shape4 \<Rightarrow> error + shape4" where
  "torch_max_dim1 (n, c, h, w) =
     (if numel4 (n, c, h, w) = 0 then Inl RuntimeError else Inr (n, 1, h, w))"

fun torch_cat_dim1 :: "shape4 \<Rightarrow> shape4 \<Rightarrow> error + shape4" where
  "torch_cat_dim1 (n, c, h, w) (n', c', h', w') =
     (if n = n' \<and> h = h' \<and> w = w' then Inr (n, c + c', h, w) else Inl RuntimeError)"

definition broadcast_dim :: "nat \<Rightarrow> nat \<Rightarrow> nat option" where
  "broadcast_dim a b = (if a = b then Some a else if a = 1 then Some b
                        else if b = 1 then Some a else None)"

fun torch_mul :: "shape4 \<Rightarrow> shape4 \<Rightarrow> error + shape4" where
  "torch_mul (n, c, h, w) (n', c', h', w') =
     (case (broadcast_dim n n', broadcast_dim c c', broadcast_dim h h', broadcast_dim w w') of
        (Some a, Some b, Some d, Some e) \<Rightarrow> Inr (a, b, d, e)
      | _ \<Rightarrow> Inl RuntimeError)"

subsection \<open>\<open>_NewEmptyTensorOp\<close> and \<open>Max\<close> (lines 119 to 138)\<close>

text \<open>
  \<open>Max_sam\<close> is the source's \<open>Max\<close>, the wrapper of the Spatial Attention Module; the
  plain name is HOL's maximum of a set.
\<close>

definition NewEmptyTensorOp :: "shape4 \<Rightarrow> shape4 \<Rightarrow> shape4" where
  "NewEmptyTensorOp x new_shape = new_shape"

fun Max_sam :: "shape4 \<Rightarrow> error + shape4" where
  "Max_sam (n, c, h, w) =
     (if numel4 (n, c, h, w) = 0
      then let output_shape = (n, 1, h, w)
           in Inr (NewEmptyTensorOp (n, c, h, w) output_shape)
      else torch_max_dim1 (n, c, h, w))"

subsection \<open>\<open>SpatialAttention\<close> (lines 140 to 154)\<close>

record SpatialAttention =
  conv :: conv2d

text \<open>
  The constructor runs its statements in order: the assertion on the kernel size, the
  convolution, then the call \<open>weight_init.c2_msra_fill(self.conv)\<close>, whose first step is
  the lookup of the global name \<open>weight_init\<close> in the namespace \<open>globals\<close> of the module.
\<close>

definition SpatialAttention_init :: "string list \<Rightarrow> int \<Rightarrow> error + SpatialAttention" where
  "SpatialAttention_init globals ksize =
     (if ksize \<noteq> 3 \<and> ksize \<noteq> 7 then Inl AssertionError
      else let pad = (if ksize = 7 then 3 else 1);
               cv = \<lparr>in_channels = 2, out_channels = 1, kernel_size = nat ksize,
                     stride = 1, padding = pad\<rparr>
           in case lookup_global globals ''weight_init'' of
                Inl e \<Rightarrow> Inl e
              | Inr _ \<Rightarrow> Inr \<lparr>conv = cv\<rparr>)"

definition SpatialAttention_forward :: "SpatialAttention \<Rightarrow> shape4 \<Rightarrow> error + shape4" where
  "SpatialAttention_forward self x =
     (let avg_out = torch_mean_dim1 x in
      case Max_sam x of
        Inl e \<Rightarrow> Inl e
      | Inr max_out \<Rightarrow>
          (case torch_cat_dim1 avg_out max_out of
             Inl e \<Rightarrow> Inl e
           | Inr scale \<Rightarrow>
               (case Conv2d_forward (conv self) scale of
                  Inl e \<Rightarrow> Inl e
                | Inr scale' \<Rightarrow> torch_mul x (sigmoid scale'))))"

subsection \<open>Configuration and the head's constructor (lines 161 to 172 and 218 to 256)\<close>

text \<open>
  The configuration node: the fields the constructors read, and \<open>other\<close> for every other
  entry the node holds, which no line of the file reads.
\<close>

record cfg =
  LOSS_WEIGHT :: real
  NORMALIZE_LOSS_BY_VISIBLE_KEYPOINTS :: bool
  NUM_KEYPOINTS :: nat
  BATCH_SIZE_PER_IMAGE :: nat
  POSITIVE_FRACTION :: real
  CONV_DIMS :: "nat list"
  other :: "(string \<times> int) list"

record ShapeSpec =
  channels :: nat

record BaseKeypointRCNNHead =
  loss_weight :: real
  normalize_by_visible_keypoints :: bool
  num_keypoints :: nat
  normalizer_per_img :: real
  training :: bool

record KRCNNConvDeconvUpsampleHead = BaseKeypointRCNNHead +
  blocks :: "conv2d list"
  spatialAtt :: SpatialAttention
  score_lowres :: conv2d
  up_scale :: nat

definition Base_init :: "cfg \<Rightarrow> BaseKeypointRCNNHead" where
  "Base_init c =
     \<lparr>loss_weight = LOSS_WEIGHT c,
      normalize_by_visible_keypoints = NORMALIZE_LOSS_BY_VISIBLE_KEYPOINTS c,
      num_keypoints = NUM_KEYPOINTS c,
      normalizer_per_img =
        real (NUM_KEYPOINTS c) * real (BATCH_SIZE_PER_IMAGE c) * POSITIVE_FRACTION c,
      training = True\<rparr>"

text \<open>The loop over \<open>conv_dims\<close>: the modules built, and the last channel count.\<close>

fun conv_blocks :: "nat \<Rightarrow> nat list \<Rightarrow> conv2d list \<times> nat" where
  "conv_blocks in_ch [] = ([], in_ch)"
| "conv_blocks in_ch (layer_channels # rest) =
     (let module = \<lparr>in_channels = in_ch, out_channels = layer_channels, kernel_size = 3,
                     stride = 1, padding = 1\<rparr>;
          (ms, last_ch) = conv_blocks layer_channels rest
      in (module # ms, last_ch))"

definition KRCNN_init ::
    "string list \<Rightarrow> cfg \<Rightarrow> ShapeSpec \<Rightarrow> error + KRCNNConvDeconvUpsampleHead" where
  "KRCNN_init globals c input_shape =
     (let base = Base_init c;
          upscale = 2;
          conv_dims = CONV_DIMS c;
          n_keypoints = NUM_KEYPOINTS c;
          (bs, in_ch) = conv_blocks (channels input_shape) conv_dims
      in case SpatialAttention_init globals 3 of
           Inl e \<Rightarrow> Inl e
         | Inr sa \<Rightarrow>
             (let deconv_kernel = 4;
                  lowres = \<lparr>in_channels = in_ch, out_channels = n_keypoints,
                             kernel_size = deconv_kernel, stride = 2,
                             padding = deconv_kernel div 2 - 1\<rparr>
              in Inr (BaseKeypointRCNNHead.extend base
                        \<lparr>blocks = bs, spatialAtt = sa, score_lowres = lowres,
                         up_scale = upscale\<rparr>)))"

subsection \<open>\<open>layers\<close> (lines 258 to 264)\<close>

fun apply_blocks :: "conv2d list \<Rightarrow> shape4 \<Rightarrow> error + shape4" where
  "apply_blocks [] x = Inr x"
| "apply_blocks (layer # rest) x =
     (case Conv2d_forward layer x of
        Inl e \<Rightarrow> Inl e
      | Inr y \<Rightarrow> apply_blocks rest (relu y))"

definition layers :: "KRCNNConvDeconvUpsampleHead \<Rightarrow> shape4 \<Rightarrow> error + shape4" where
  "layers self x =
     (case SpatialAttention_forward (spatialAtt self) x of
        Inl e \<Rightarrow> Inl e
      | Inr x1 \<Rightarrow>
          (case apply_blocks (blocks self) x1 of
             Inl e \<Rightarrow> Inl e
           | Inr x2 \<Rightarrow>
               (case ConvTranspose2d_forward (score_lowres self) x2 of
                  Inl e \<Rightarrow> Inl e
                | Inr x3 \<Rightarrow> Inr (interpolate x3 (up_scale self)))))"


section \<open>Tensors with storage\<close>

text \<open>
  The loss and the decode stage work on tensor objects. As in the array library, a tensor
  is a view (an offset and a shape) on a storage buffer, so that two tensors can share
  their elements: \<open>view\<close> and \<open>split\<close> return such views, and an in-place operation
  writes into the buffer. Buffers live in a heap, addressed by their index. Temporaries that
  no line writes to are kept as values: a shape with the elements in row-major order.
\<close>

record tensor =
  storage :: nat
  offset :: nat
  shape :: "nat list"

type_synonym heap = "real list list"

type_synonym tval = "nat list \<times> real list"

definition numel :: "tensor \<Rightarrow> nat" where
  "numel t = prod_list (shape t)"

definition tdata :: "heap \<Rightarrow> tensor \<Rightarrow> real list" where
  "tdata h t = take (numel t) (drop (offset t) (h ! storage t))"

definition tval :: "heap \<Rightarrow> tensor \<Rightarrow> tval" where
  "tval h t = (shape t, tdata h t)"

definition wf_tensor :: "heap \<Rightarrow> tensor \<Rightarrow> bool" where
  "wf_tensor h t = (storage t < length h \<and> offset t + numel t \<le> length (h ! storage t))"

text \<open>
  The state a call can change: the heap, the module's counter \<open>_TOTAL_SKIPPED\<close> (line 12),
  the event storage, and the gradient graph. The graph is what the library's automatic
  differentiation records in training: for the tensor a differentiable operation returns,
  one edge to each tensor it was computed from, here from the storage of the one to the
  storage of the other. A tensor made from detached inputs has no edge.
\<close>

record world =
  heap :: heap
  TOTAL_SKIPPED :: int
  event_storage :: "(string \<times> int) list"
  graph :: "(nat \<times> nat) list"

definition alloc :: "nat list \<Rightarrow> real list \<Rightarrow> tensor list \<Rightarrow> world \<Rightarrow> tensor \<times> world" where
  "alloc shp xs inputs w =
     (\<lparr>storage = length (heap w), offset = 0, shape = shp\<rparr>,
      w\<lparr>heap := heap w @ [xs],
        graph := graph w @ map (\<lambda>t. (length (heap w), storage t)) inputs\<rparr>)"


text \<open>
  Modelled from the spec: the metrics sink (\<open>get_event_storage\<close> and \<open>put_scalar\<close> of
  \<open>detectron2.utils.events\<close>) is not under src/. It accepts a named scalar value per report
  call; the model keeps the reports in the order they were made.
\<close>

definition put_scalar :: "string \<Rightarrow> int \<Rightarrow> world \<Rightarrow> world" where
  "put_scalar name v w = w\<lparr>event_storage := event_storage w @ [(name, v)]\<rparr>"

subsection \<open>Operations of the array library\<close>

definition view :: "tensor \<Rightarrow> nat list \<Rightarrow> error + tensor" where
  "view t shp = (if prod_list shp = numel t then Inr (t\<lparr>shape := shp\<rparr>) else Inl RuntimeError)"

text \<open>
  The sum of all elements of a tensor is computed by the array library in the tensor's
  float type, in an order of its own. The result need not be the sum of the reals: it is
  inf or nan as soon as a partial sum leaves the range of the floats. The library's
  reduction is therefore a parameter of the model: a function from the elements to the
  float sum, or to \<open>None\<close> when that sum is inf or nan. Elements that are themselves inf
  or nan are outside the model.
\<close>

type_synonym reduction = "real list \<Rightarrow> real option"

definition torch_sum :: "reduction \<Rightarrow> tensor \<Rightarrow> world \<Rightarrow> (error + tensor) \<times> world" where
  "torch_sum sum_op t w =
     (case sum_op (tdata (heap w) t) of
        None \<Rightarrow> (Inl NonFinite, w)
      | Some s \<Rightarrow> (case alloc [] [s] [t] w of (r, w') \<Rightarrow> (Inr r, w')))"

text \<open>
  The product of a finite float and 0 is a zero; the product of a tensor with a finite
  weight is followed on the reals.
\<close>

definition torch_mul_scalar :: "tensor \<Rightarrow> real \<Rightarrow> world \<Rightarrow> tensor \<times> world" where
  "torch_mul_scalar t c w = alloc (shape t) (map (\<lambda>x. x * c) (tdata (heap w) t)) [t] w"

text \<open>
  \<open>t /= d\<close> divides the elements of \<open>t\<close> where they are stored. Dividing by zero gives inf
  or nan and raises nothing; the model stops there with \<open>NonFinite\<close>.
\<close>

definition map_range :: "('a \<Rightarrow> 'a) \<Rightarrow> nat \<Rightarrow> nat \<Rightarrow> 'a list \<Rightarrow> 'a list" where
  "map_range f off len xs = take off xs @ map f (take len (drop off xs)) @ drop (off + len) xs"

definition div_inplace :: "tensor \<Rightarrow> real \<Rightarrow> world \<Rightarrow> error + world" where
  "div_inplace t d w =
     (if d = 0 then Inl NonFinite
      else Inr (w\<lparr>heap := (heap w)[storage t :=
                  map_range (\<lambda>x. x / d) (offset t) (numel t) (heap w ! storage t)]\<rparr>))"

definition to_uint8 :: "bool \<Rightarrow> 8 word" where
  "to_uint8 b = (if b then 1 else 0)"

definition torch_nonzero :: "8 word list \<Rightarrow> nat list" where
  "torch_nonzero xs = filter (\<lambda>i. xs ! i \<noteq> 0) [0..<length xs]"

text \<open>Indexing a 2-D tensor, and a 1-D value, by a tensor of row indices.\<close>

definition row2d :: "heap \<Rightarrow> tensor \<Rightarrow> nat \<Rightarrow> real list" where
  "row2d h t i = take (shape t ! 1) (drop (offset t + i * (shape t ! 1)) (h ! storage t))"

definition index_rows :: "heap \<Rightarrow> tensor \<Rightarrow> nat list \<Rightarrow> error + real list list" where
  "index_rows h t idx =
     (if list_all (\<lambda>i. i < shape t ! 0) idx then Inr (map (row2d h t) idx) else Inl IndexError)"

definition index_list :: "'a list \<Rightarrow> nat list \<Rightarrow> error + 'a list" where
  "index_list xs idx =
     (if list_all (\<lambda>i. i < length xs) idx then Inr (map ((!) xs) idx) else Inl IndexError)"

text \<open>
  \<open>F.cross_entropy\<close> with \<open>reduction="sum"\<close>: per row, the negative log-softmax at the
  target class; a target outside the row's classes is an error.
\<close>

definition cross_entropy_row :: "real list \<Rightarrow> nat \<Rightarrow> error + real" where
  "cross_entropy_row x t =
     (if t < length x then Inr (ln (\<Sum>v\<leftarrow>x. exp v) - x ! t) else Inl IndexError)"

fun cross_entropy_sum :: "real list list \<Rightarrow> nat list \<Rightarrow> error + real" where
  "cross_entropy_sum [] [] = Inr 0"
| "cross_entropy_sum (x # xs) (t # ts) =
     (case cross_entropy_row x t of
        Inl e \<Rightarrow> Inl e
      | Inr l \<Rightarrow> (case cross_entropy_sum xs ts of Inl e \<Rightarrow> Inl e | Inr s \<Rightarrow> Inr (l + s)))"
| "cross_entropy_sum _ _ = Inl ValueError"

section \<open>Instance collections and the external encoder and decoder\<close>

text \<open>
  Modelled from the spec: \<open>Instances\<close> (\<open>detectron2.structures\<close>) is not under src/. A
  per-image collection has a number of instances, which \<open>len\<close> returns, and named fields
  holding tensors; reading a field it does not have is an AttributeError, and assigning to
  an attribute attaches the value under that name. Collections of different images are
  different objects.
\<close>

record Instances =
  num_instances :: nat
  get_fields :: "string \<rightharpoonup> tensor"

definition getattr :: "Instances \<Rightarrow> string \<Rightarrow> error + tensor" where
  "getattr i name = (case get_fields i name of None \<Rightarrow> Inl AttributeError | Some t \<Rightarrow> Inr t)"

definition setattr :: "Instances \<Rightarrow> string \<Rightarrow> tensor \<Rightarrow> Instances" where
  "setattr i name t = i\<lparr>get_fields := (get_fields i)(name \<mapsto> t)\<rparr>"

text \<open>
  The encoder \<open>Keypoints.to_heatmap\<close> and the decoder \<open>heatmaps_to_keypoints\<close> are external
  and enter every definition as parameters. The encoder gets the keypoints and the boxes of
  one image and the side length, and returns one pair (bin index, validity) per instance
  and keypoint; the decoder gets the logits and the boxes and returns its result tensor.
\<close>

type_synonym encoder = "tval \<Rightarrow> tval \<Rightarrow> nat \<Rightarrow> (nat \<times> bool) list"

type_synonym decoder = "tval \<Rightarrow> tval \<Rightarrow> tval"

section \<open>\<open>keypoint_rcnn_loss\<close> (lines 30 to 86)\<close>

text \<open>The loop of lines 50 to 58: the lists \<open>heatmaps\<close> and \<open>valid\<close> it builds.\<close>

fun collect_heatmaps ::
    "encoder \<Rightarrow> heap \<Rightarrow> nat \<Rightarrow> Instances list \<Rightarrow> error + (nat list list \<times> bool list list)" where
  "collect_heatmaps to_heatmap h side [] = Inr ([], [])"
| "collect_heatmaps to_heatmap h side (instances_per_image # rest) =
     (if num_instances instances_per_image = 0 then collect_heatmaps to_heatmap h side rest
      else case getattr instances_per_image ''gt_keypoints'' of
        Inl e \<Rightarrow> Inl e
      | Inr keypoints \<Rightarrow>
          (case getattr instances_per_image ''proposal_boxes'' of
             Inl e \<Rightarrow> Inl e
           | Inr boxes \<Rightarrow>
               (let per_image = to_heatmap (tval h keypoints) (tval h boxes) side
                in case collect_heatmaps to_heatmap h side rest of
                     Inl e \<Rightarrow> Inl e
                   | Inr (heatmaps, valid) \<Rightarrow>
                       Inr (map fst per_image # heatmaps, map snd per_image # valid))))"

text \<open>Lines 74 to 79: the loss before normalization.\<close>

definition keypoint_loss_sum :: "heap \<Rightarrow> tensor \<Rightarrow> nat list \<Rightarrow> nat list \<Rightarrow> error + real" where
  "keypoint_loss_sum h pred_keypoint_logits keypoint_targets valid =
     (case shape pred_keypoint_logits of
        [N, K, H, W] \<Rightarrow>
          (case view pred_keypoint_logits [N * K, H * W] of
             Inl e \<Rightarrow> Inl e
           | Inr logits2 \<Rightarrow>
               (case index_rows h logits2 valid of
                  Inl e \<Rightarrow> Inl e
                | Inr rows \<Rightarrow>
                    (case index_list keypoint_targets valid of
                       Inl e \<Rightarrow> Inl e
                     | Inr targets \<Rightarrow> cross_entropy_sum rows targets)))
      | _ \<Rightarrow> Inl ValueError)"

definition keypoint_rcnn_loss ::
    "reduction \<Rightarrow> encoder \<Rightarrow> tensor \<Rightarrow> Instances list \<Rightarrow> real option \<Rightarrow> world \<Rightarrow>
     (error + tensor) \<times> world" where
  "keypoint_rcnn_loss sum_op to_heatmap pred_keypoint_logits instances normalizer w =
     (if length (shape pred_keypoint_logits) < 3 then (Inl IndexError, w)
      else
        let keypoint_side_len = shape pred_keypoint_logits ! 2 in
        case collect_heatmaps to_heatmap (heap w) keypoint_side_len instances of
          Inl e \<Rightarrow> (Inl e, w)
        | Inr (heatmaps, valid_flags) \<Rightarrow>
            (let keypoint_targets = concat heatmaps;
                 valid = (if heatmaps \<noteq> []
                          then torch_nonzero (map to_uint8 (concat valid_flags)) else [])
             in if heatmaps = [] \<or> valid = [] then
                  (let w1 = w\<lparr>TOTAL_SKIPPED := TOTAL_SKIPPED w + 1\<rparr>;
                       w2 = put_scalar ''kpts_num_skipped_batches'' (TOTAL_SKIPPED w1) w1
                   in case torch_sum sum_op pred_keypoint_logits w2 of
                        (Inl e, w3) \<Rightarrow> (Inl e, w3)
                      | (Inr s, w3) \<Rightarrow>
                          (let (r, w4) = torch_mul_scalar s 0 w3 in (Inr r, w4)))
                else
                  (case keypoint_loss_sum (heap w) pred_keypoint_logits keypoint_targets valid of
                     Inl e \<Rightarrow> (Inl e, w)
                   | Inr l \<Rightarrow>
                       (let (keypoint_loss, w1) = alloc [] [l] [pred_keypoint_logits] w;
                            d = (case normalizer of
                                   None \<Rightarrow> real (length valid)
                                 | Some n \<Rightarrow> n)
                        in case div_inplace keypoint_loss d w1 of
                             Inl e \<Rightarrow> (Inl e, w1)
                           | Inr w2 \<Rightarrow> (Inr keypoint_loss, w2)))))"

section \<open>\<open>keypoint_rcnn_inference\<close> (lines 89 to 115)\<close>

text \<open>
  Modelled from the spec: \<open>cat\<close> (\<open>detectron2.layers\<close>) is not under src/. It concatenates
  the tensors it is given along the first dimension, in their order.
\<close>

definition dim0 :: "nat list \<Rightarrow> nat" where
  "dim0 shp = (case shp of [] \<Rightarrow> 0 | n # _ \<Rightarrow> n)"

definition cat_dim0 :: "tval list \<Rightarrow> tval" where
  "cat_dim0 ts =
     (sum_list (map (dim0 \<circ> fst) ts) # (case ts of [] \<Rightarrow> [] | t # _ \<Rightarrow> tl (fst t)),
      concat (map snd ts))"

fun pred_boxes_of :: "Instances list \<Rightarrow> error + tensor list" where
  "pred_boxes_of [] = Inr []"
| "pred_boxes_of (b # bs) =
     (case getattr b ''pred_boxes'' of
        Inl e \<Rightarrow> Inl e
      | Inr t \<Rightarrow> (case pred_boxes_of bs of Inl e \<Rightarrow> Inl e | Inr ts \<Rightarrow> Inr (t # ts)))"

text \<open>\<open>keypoint_results[:, :, [0, 1, 3]]\<close>: a new tensor with columns 0, 1 and 3.\<close>

definition select_columns :: "tval \<Rightarrow> error + tval" where
  "select_columns v =
     (case fst v of
        [r, k, c] \<Rightarrow>
          if 3 < c
          then Inr ([r, k, 3],
                    concat (map (\<lambda>i. let q = take c (drop (i * c) (snd v))
                                      in [q ! 0, q ! 1, q ! 3]) [0..<r * k]))
          else Inl IndexError
      | _ \<Rightarrow> Inl IndexError)"

text \<open>\<open>split\<close> along the first dimension: views on the same storage, one per size.\<close>

fun split_views :: "tensor \<Rightarrow> nat list \<Rightarrow> nat \<Rightarrow> nat list \<Rightarrow> tensor list" where
  "split_views t rest start [] = []"
| "split_views t rest start (n # ns) =
     \<lparr>storage = storage t, offset = offset t + start * prod_list rest, shape = n # rest\<rparr>
       # split_views t rest (start + n) ns"

definition torch_split :: "tensor \<Rightarrow> nat list \<Rightarrow> error + tensor list" where
  "torch_split t sizes =
     (case shape t of
        [] \<Rightarrow> Inl RuntimeError
      | r # rest \<Rightarrow>
          if sum_list sizes = r then Inr (split_views t rest 0 sizes) else Inl RuntimeError)"

text \<open>The loop of lines 113 to 115 over \<open>zip(keypoint_results, pred_instances)\<close>.\<close>

fun attach :: "tensor list \<Rightarrow> Instances list \<Rightarrow> Instances list" where
  "attach (keypoint_results_per_image # ks) (instances_per_image # is) =
     setattr instances_per_image ''pred_keypoints'' keypoint_results_per_image # attach ks is"
| "attach [] is = is"
| "attach ks [] = []"

text \<open>
  The function returns \<open>None\<close>, here \<open>Inr ()\<close>; its effect is the new state of the caller's
  collections, returned beside it. The decoder gets detached tensors, so its result has
  no edge in the gradient graph.
\<close>

definition keypoint_rcnn_inference ::
    "decoder \<Rightarrow> tensor \<Rightarrow> Instances list \<Rightarrow> world \<Rightarrow> (error + unit) \<times> Instances list \<times> world" where
  "keypoint_rcnn_inference heatmaps_to_keypoints pred_keypoint_logits pred_instances w =
     (case pred_boxes_of pred_instances of
        Inl e \<Rightarrow> (Inl e, pred_instances, w)
      | Inr boxes \<Rightarrow>
          (let bboxes_flat = cat_dim0 (map (tval (heap w)) boxes);
               keypoint_results =
                 heatmaps_to_keypoints (tval (heap w) pred_keypoint_logits) bboxes_flat;
               num_instances_per_image = map num_instances pred_instances
           in case select_columns keypoint_results of
                Inl e \<Rightarrow> (Inl e, pred_instances, w)
              | Inr selected \<Rightarrow>
                  (let (t, w1) = alloc (fst selected) (snd selected) [] w
                   in case torch_split t num_instances_per_image of
                        Inl e \<Rightarrow> (Inl e, pred_instances, w1)
                      | Inr chunks \<Rightarrow> (Inr (), attach chunks pred_instances, w1))))"

section \<open>\<open>BaseKeypointRCNNHead.forward\<close> (lines 174 to 208)\<close>

datatype forward_result = Losses "(string \<times> tensor) list" | Predictions "Instances list"

text \<open>
  \<open>layers\<close> is the hook a subclass supplies; the base class raises. In \<open>forward\<close> it is a
  parameter, a function from the features to the logits.
\<close>

definition Base_layers :: "tensor \<Rightarrow> world \<Rightarrow> (error + tensor) \<times> world" where
  "Base_layers x w = (Inl NotImplementedError, w)"

definition forward ::
    "(tensor \<Rightarrow> world \<Rightarrow> (error + tensor) \<times> world) \<Rightarrow> reduction \<Rightarrow> encoder \<Rightarrow> decoder \<Rightarrow>
     'a BaseKeypointRCNNHead_scheme \<Rightarrow> tensor \<Rightarrow> Instances list \<Rightarrow> world \<Rightarrow>
     (error + forward_result) \<times> world" where
  "forward layers_hook sum_op to_heatmap heatmaps_to_keypoints self x instances w =
     (case layers_hook x w of
        (Inl e, w1) \<Rightarrow> (Inl e, w1)
      | (Inr x1, w1) \<Rightarrow>
          if training self then
            (let num_images = length instances;
                 normalizer = (if normalize_by_visible_keypoints self then None
                               else Some (real num_images * normalizer_per_img self))
             in case keypoint_rcnn_loss sum_op to_heatmap x1 instances normalizer w1 of
                  (Inl e, w2) \<Rightarrow> (Inl e, w2)
                | (Inr l, w2) \<Rightarrow>
                    (let (r, w3) = torch_mul_scalar l (loss_weight self) w2
                     in (Inr (Losses [(''loss_keypoint'', r)]), w3)))
          else
            (case keypoint_rcnn_inference heatmaps_to_keypoints x1 instances w1 of
               (Inl e, _, w2) \<Rightarrow> (Inl e, w2)
             | (Inr _, instances', w2) \<Rightarrow> (Inr (Predictions instances'), w2)))"

section \<open>The vocabulary of the properties\<close>

text \<open>
  What the properties below say about a batch, in the words of the specification, not of
  the code. A non-empty image is annotated when it has its keypoints and its reference
  boxes; its heatmap targets are what the encoder returns for them; the targets of the
  batch are those of its non-empty images, in image order.
\<close>

definition annotated :: "Instances \<Rightarrow> bool" where
  "annotated i =
     (get_fields i ''gt_keypoints'' \<noteq> None \<and> get_fields i ''proposal_boxes'' \<noteq> None)"

definition readable :: "Instances list \<Rightarrow> bool" where
  "readable is = list_all (\<lambda>i. num_instances i = 0 \<or> annotated i) is"

definition image_targets :: "encoder \<Rightarrow> heap \<Rightarrow> nat \<Rightarrow> Instances \<Rightarrow> (nat \<times> bool) list" where
  "image_targets enc h side i =
     enc (tval h (the (get_fields i ''gt_keypoints'')))
         (tval h (the (get_fields i ''proposal_boxes''))) side"

definition heatmap_targets ::
    "encoder \<Rightarrow> heap \<Rightarrow> nat \<Rightarrow> Instances list \<Rightarrow> (nat \<times> bool) list" where
  "heatmap_targets enc h side is =
     concat (map (image_targets enc h side) (filter (\<lambda>i. num_instances i \<noteq> 0) is))"

text \<open>
  A batch is degenerate when every per-image instance list is empty or no validity flag is
  true.
\<close>

definition degenerate_batch :: "encoder \<Rightarrow> heap \<Rightarrow> nat \<Rightarrow> Instances list \<Rightarrow> bool" where
  "degenerate_batch enc h side is =
     (list_all (\<lambda>i. num_instances i = 0) is
      \<or> list_all (\<lambda>tv. \<not> snd tv) (heatmap_targets enc h side is))"

text \<open>
  \<open>valid_rows\<close> are the indices of the true validity flags, and \<open>valid_indices\<close> the
  same in increasing order; \<open>logits_row\<close> is a row of the
  logits reshaped to \<open>(R\<cdot>K, S\<cdot>S)\<close>; \<open>summed_cross_entropy\<close> is the sum, over exactly the
  valid rows, of the cross-entropy of the row against its target bin.
\<close>

definition valid_rows :: "(nat \<times> bool) list \<Rightarrow> nat set" where
  "valid_rows T = {i. i < length T \<and> snd (T ! i)}"

definition valid_indices :: "(nat \<times> bool) list \<Rightarrow> nat list" where
  "valid_indices T = filter (\<lambda>i. snd (T ! i)) [0..<length T]"

definition logits_row :: "heap \<Rightarrow> tensor \<Rightarrow> nat \<Rightarrow> real list" where
  "logits_row h t i =
     (let c = shape t ! 2 * shape t ! 3
      in take c (drop (offset t + i * c) (h ! storage t)))"

definition row_cross_entropy :: "real list \<Rightarrow> nat \<Rightarrow> real" where
  "row_cross_entropy x t = ln (\<Sum>v\<leftarrow>x. exp v) - x ! t"

definition summed_cross_entropy :: "heap \<Rightarrow> tensor \<Rightarrow> (nat \<times> bool) list \<Rightarrow> real" where
  "summed_cross_entropy h t T =
     (\<Sum>i\<in>valid_rows T. row_cross_entropy (logits_row h t i) (fst (T ! i)))"

text \<open>
  A batch matches its logits \<open>(R, K, S, S')\<close> when the logits are stored, the instance
  counts of the images sum to \<open>R\<close>, the encoder returns one target per instance and
  keypoint, and the bin of every valid target is one of the \<open>S\<cdot>S'\<close> bins.
\<close>

definition batch_matches :: "encoder \<Rightarrow> heap \<Rightarrow> tensor \<Rightarrow> Instances list \<Rightarrow> bool" where
  "batch_matches enc h logits is =
     (length (shape logits) = 4 \<and> wf_tensor h logits \<and> readable is
      \<and> sum_list (map num_instances is) = shape logits ! 0
      \<and> list_all (\<lambda>i. length (image_targets enc h (shape logits ! 2) i)
                        = num_instances i * shape logits ! 1)
           (filter (\<lambda>i. num_instances i \<noteq> 0) is)
      \<and> list_all (\<lambda>tv. snd tv \<longrightarrow> fst tv < shape logits ! 2 * shape logits ! 3)
           (heatmap_targets enc h (shape logits ! 2) is))"

text \<open>
  An invocation takes the degenerate path when it reaches line 67 with a degenerate batch:
  the logits have a third dimension and the batch can be read.
\<close>

definition skips :: "encoder \<Rightarrow> tensor \<Rightarrow> Instances list \<Rightarrow> heap \<Rightarrow> bool" where
  "skips enc logits is h =
     (3 \<le> length (shape logits) \<and> readable is
      \<and> degenerate_batch enc h (shape logits ! 2) is)"

text \<open>
  A sequence of invocations of the loss in one process. Line 12 sets the counter to 0 when
  the module is loaded, and no other line of the file writes it. Each invocation finds the
  heap as the rest of the process has left it, which is part of the invocation here, and
  the counter and the event storage as the invocation before left them; an invocation that
  raises leaves them to the next. \<open>skipped_batches\<close> counts the invocations that take the
  degenerate path.
\<close>

definition process_start :: world where
  "process_start = \<lparr>heap = [], TOTAL_SKIPPED = 0, event_storage = [], graph = []\<rparr>"

type_synonym loss_call = "heap \<times> tensor \<times> Instances list \<times> real option"

fun run_losses :: "reduction \<Rightarrow> encoder \<Rightarrow> loss_call list \<Rightarrow> world \<Rightarrow> world" where
  "run_losses sum_op enc [] w = w"
| "run_losses sum_op enc ((h, logits, is, normalizer) # cs) w =
     run_losses sum_op enc cs
       (snd (keypoint_rcnn_loss sum_op enc logits is normalizer (w\<lparr>heap := h\<rparr>)))"

fun skipped_batches :: "encoder \<Rightarrow> loss_call list \<Rightarrow> nat" where
  "skipped_batches enc [] = 0"
| "skipped_batches enc ((h, logits, is, normalizer) # cs) =
     (if skips enc logits is h then 1 else 0) + skipped_batches enc cs"

text \<open>
  For the decode stage: the decoder's result on a batch, read per instance and keypoint as
  \<open>(x, y, intermediate, score)\<close>; the entry of an attached \<open>(n, K, 3)\<close> tensor; the
  number of rows that belong to the images before image \<open>i\<close>; and what a batch must
  satisfy to be decoded: every image has its predicted boxes, the instance counts sum to
  the logits' instance count \<open>R\<close>, and the decoder returns an \<open>(R, K, 4)\<close> tensor.
\<close>

definition keypoint_at :: "heap \<Rightarrow> tensor \<Rightarrow> nat \<Rightarrow> nat \<Rightarrow> real \<times> real \<times> real" where
  "keypoint_at h t j k =
     (let d = tdata h t; b = (j * (shape t ! 1) + k) * 3
      in (d ! b, d ! (b + 1), d ! (b + 2)))"

definition decoded_at :: "tval \<Rightarrow> nat \<Rightarrow> nat \<Rightarrow> real \<times> real \<times> real \<times> real" where
  "decoded_at v j k =
     (let b = (j * (fst v ! 1) + k) * 4
      in (snd v ! b, snd v ! (b + 1), snd v ! (b + 2), snd v ! (b + 3)))"

fun xy_score :: "real \<times> real \<times> real \<times> real \<Rightarrow> real \<times> real \<times> real" where
  "xy_score (x, y, l, s) = (x, y, s)"

definition rows_before :: "Instances list \<Rightarrow> nat \<Rightarrow> nat" where
  "rows_before is i = sum_list (map num_instances (take i is))"

definition decoded :: "decoder \<Rightarrow> heap \<Rightarrow> tensor \<Rightarrow> Instances list \<Rightarrow> tval" where
  "decoded dec h logits is =
     dec (tval h logits)
         (cat_dim0 (map (\<lambda>i. tval h (the (get_fields i ''pred_boxes''))) is))"

definition decodable :: "decoder \<Rightarrow> heap \<Rightarrow> tensor \<Rightarrow> Instances list \<Rightarrow> bool" where
  "decodable dec h logits is =
     (length (shape logits) = 4
      \<and> list_all (\<lambda>i. get_fields i ''pred_boxes'' \<noteq> None) is
      \<and> sum_list (map num_instances is) = shape logits ! 0
      \<and> fst (decoded dec h logits is) = [shape logits ! 0, shape logits ! 1, 4]
      \<and> length (snd (decoded dec h logits is)) = shape logits ! 0 * shape logits ! 1 * 4)"

section \<open>Example inputs\<close>

text \<open>
  A training batch for logits of shape \<open>(1, 2, 2, 2)\<close>: an image with one instance whose
  first keypoint is visible, one whose keypoints are all invisible, and one with no
  instance; an encoder that reads the visibility flags; a head configuration; and a
  network hook that returns its input as the logits. An example reduction, \<open>float32_sum\<close>:
  the sum of the elements when it is within the largest finite float32 (2 to the power 128
  minus 2 to the power 104), and no finite value beyond it; and logits of shape
  \<open>(1, 2, 1, 1)\<close> holding 2 to the power 127 twice, two floats whose float32 sum is inf.
  Then an inference batch with instance counts 3, 0 and 5.
\<close>

definition example_world :: world where
  "example_world =
     \<lparr>heap = [[1, 2, 3, 4, 4, 3, 2, 1], [10, 10, 2, 20, 20, 0], [0, 0, 32, 32],
              [10, 10, 0, 20, 20, 0]],
      TOTAL_SKIPPED = 0, event_storage = [], graph = []\<rparr>"

definition example_logits :: tensor where
  "example_logits = \<lparr>storage = 0, offset = 0, shape = [1, 2, 2, 2]\<rparr>"

definition visible_image :: Instances where
  "visible_image =
     \<lparr>num_instances = 1,
      get_fields = [''gt_keypoints'' \<mapsto> \<lparr>storage = 1, offset = 0, shape = [1, 2, 3]\<rparr>,
                    ''proposal_boxes'' \<mapsto> \<lparr>storage = 2, offset = 0, shape = [1, 4]\<rparr>]\<rparr>"

definition invisible_image :: Instances where
  "invisible_image =
     \<lparr>num_instances = 1,
      get_fields = [''gt_keypoints'' \<mapsto> \<lparr>storage = 3, offset = 0, shape = [1, 2, 3]\<rparr>,
                    ''proposal_boxes'' \<mapsto> \<lparr>storage = 2, offset = 0, shape = [1, 4]\<rparr>]\<rparr>"

definition empty_image :: Instances where
  "empty_image = \<lparr>num_instances = 0, get_fields = Map.empty\<rparr>"

definition example_encoder :: encoder where
  "example_encoder keypoints boxes side = [(2, 0 < snd keypoints ! 2), (3, 0 < snd keypoints ! 5)]"

definition float32_max :: real where
  "float32_max = 340282346638528859811704183484516925440"

definition float32_sum :: reduction where
  "float32_sum xs =
     (if \<bar>sum_list xs\<bar> \<le> float32_max then Some (sum_list xs) else None)"



definition example_cfg :: cfg where
  "example_cfg =
     \<lparr>LOSS_WEIGHT = 5, NORMALIZE_LOSS_BY_VISIBLE_KEYPOINTS = False, NUM_KEYPOINTS = 2,
      BATCH_SIZE_PER_IMAGE = 4, POSITIVE_FRACTION = 1 / 4, CONV_DIMS = [512], other = []\<rparr>"

definition example_layers :: "tensor \<Rightarrow> world \<Rightarrow> (error + tensor) \<times> world" where
  "example_layers x w = (Inr x, w)"

lemmas ex_defs = example_world_def example_logits_def visible_image_def invisible_image_def
  empty_image_def example_encoder_def

definition inference_world :: world where
  "inference_world =
     \<lparr>heap = [[5, 1, 4, 1, 3, 2, 6, 7],
              [0, 0, 10, 10, 5, 5, 20, 20, 1, 2, 3, 4],
              [],
              [0, 0, 8, 8, 1, 1, 9, 9, 2, 2, 6, 6, 3, 3, 7, 7, 4, 4, 5, 5]],
      TOTAL_SKIPPED = 0, event_storage = [], graph = []\<rparr>"

definition inference_logits :: tensor where
  "inference_logits = \<lparr>storage = 0, offset = 0, shape = [8, 1, 1, 1]\<rparr>"

definition predicted :: "nat \<Rightarrow> nat \<Rightarrow> Instances" where
  "predicted n a =
     \<lparr>num_instances = n,
      get_fields = [''pred_boxes'' \<mapsto> \<lparr>storage = a, offset = 0, shape = [n, 4]\<rparr>]\<rparr>"

definition example_decoder :: decoder where
  "example_decoder logits boxes =
     ([8, 1, 4],
      [0, 1, 2, 3, 4, 5, 6, 7, 8, 9, 10, 11, 12, 13, 14, 15,
       16, 17, 18, 19, 20, 21, 22, 23, 24, 25, 26, 27, 28, 29, 30, 31])"

section \<open>Theorems\<close>

subsection \<open>The attention gate and the network\<close>

lemma conv_out_same:
  "stride c = 1 \<Longrightarrow> kernel_size c = 2 * padding c + 1 \<Longrightarrow> conv_out i c = i"
  by (simp add: conv_out_def)

lemma deconv_out_double:
  "stride c = 2 \<Longrightarrow> kernel_size c = 4 \<Longrightarrow> padding c = 1 \<Longrightarrow> deconv_out i c = 2 * i"
  by (simp add: deconv_out_def algebra_simps)

lemma SpatialAttention_init_Inr:
  assumes "SpatialAttention_init globals ksize = Inr sa"
  shows "in_channels (conv sa) = 2 \<and> out_channels (conv sa) = 1 \<and> stride (conv sa) = 1
       \<and> kernel_size (conv sa) = nat ksize
       \<and> padding (conv sa) = (if ksize = 7 then 3 else 1) \<and> (ksize = 3 \<or> ksize = 7)"
  using assms
  by (auto simp: SpatialAttention_init_def Let_def split: if_splits sum.splits)

lemma gate_conv_keeps_size:
  assumes "SpatialAttention_init globals ksize = Inr sa"
  shows "Conv2d_forward (conv sa) (n, 2, h, w) = Inr (n, 1, h, w)"
proof -
  have "conv_out i (conv sa) = i" for i
    using SpatialAttention_init_Inr [OF assms] by (intro conv_out_same) auto
  then show ?thesis
    using SpatialAttention_init_Inr [OF assms] by simp
qed

lemma torch_mul_gate: "torch_mul (n, c, h, w) (n, 1, h, w) = Inr (n, c, h, w)"
  by (simp add: broadcast_dim_def)

lemma Max_sam_shape: "Max_sam (n, c, h, w) = Inr (n, 1, h, w)"
  by (simp add: NewEmptyTensorOp_def)

lemma SpatialAttention_forward_shape:
  assumes "SpatialAttention_init globals ksize = Inr sa"
  shows "SpatialAttention_forward sa (n, c, h, w) = Inr (n, c, h, w)"
proof -
  have "torch_cat_dim1 (torch_mean_dim1 (n, c, h, w)) (n, 1, h, w) = Inr (n, 2, h, w)"
    by simp
  then show ?thesis
    unfolding SpatialAttention_forward_def Let_def Max_sam_shape sigmoid_def
    by (simp only: sum.case gate_conv_keeps_size [OF assms] torch_mul_gate)
qed

lemma apply_blocks_conv_blocks:
  "apply_blocks (fst (conv_blocks c dims)) (n, c, h, w)
     = Inr (n, snd (conv_blocks c dims), h, w)"
  by (induction dims arbitrary: c) (simp_all add: conv_out_same split_beta Let_def relu_def)

lemma KRCNN_init_Inr:
  assumes "KRCNN_init globals c input_shape = Inr head"
  shows "SpatialAttention_init globals 3 = Inr (spatialAtt head)
       \<and> blocks head = fst (conv_blocks (channels input_shape) (CONV_DIMS c))
       \<and> score_lowres head =
           \<lparr>in_channels = snd (conv_blocks (channels input_shape) (CONV_DIMS c)),
            out_channels = NUM_KEYPOINTS c, kernel_size = 4, stride = 2, padding = 1\<rparr>
       \<and> up_scale head = 2"
  using assms
  by (auto simp: KRCNN_init_def Let_def split_beta BaseKeypointRCNNHead.extend_def
      Base_init_def split: sum.splits)

text \<open>
  C5. In the module as written, constructing the attention gate fails for every kernel
  size: with the AssertionError of line 143 when the size is neither 3 nor 7, and, when it
  is 3 or 7, with a NameError, because the assertion passes and line 146 then uses the name
  \<open>weight_init\<close>, which the module never binds.
\<close>

theorem SpatialAttention_init_name_error:
  "SpatialAttention_init module_globals ksize =
     (if ksize = 3 \<or> ksize = 7 then Inl NameError else Inl AssertionError)"
  by (simp add: SpatialAttention_init_def lookup_global_def module_globals_def)

text \<open>
  C6, as amended. The kernel size is an argument of the gate's constructor, with the
  padding that keeps the convolution centred (1 for 3, 3 for 7); it is no configuration
  field. The head constructs its gate with the default: whenever the construction of a
  head completes, its gate convolves with kernel size 3 and padding 1, whatever the
  configuration holds.
\<close>

theorem gate_kernel_size_fixed:
  assumes "SpatialAttention_init globals ksize = Inr sa"
      and "KRCNN_init globals' c input_shape = Inr head"
  shows "kernel_size (conv sa) = nat ksize \<and> 2 * padding (conv sa) + 1 = kernel_size (conv sa)
       \<and> kernel_size (conv (spatialAtt head)) = 3 \<and> padding (conv (spatialAtt head)) = 1"
proof -
  have "SpatialAttention_init globals' 3 = Inr (spatialAtt head)"
    using KRCNN_init_Inr [OF assms(2)] by simp
  from SpatialAttention_init_Inr [OF this] SpatialAttention_init_Inr [OF assms(1)]
  show ?thesis by auto
qed

theorem gate_kernel_size_fixed_witness:
  "(case SpatialAttention_init (''weight_init'' # module_globals) 7 of
      Inl e \<Rightarrow> False
    | Inr sa \<Rightarrow> kernel_size (conv sa) = 7 \<and> padding (conv sa) = 3)
   \<and> (case KRCNN_init (''weight_init'' # module_globals)
             \<lparr>LOSS_WEIGHT = 1, NORMALIZE_LOSS_BY_VISIBLE_KEYPOINTS = True, NUM_KEYPOINTS = 17,
              BATCH_SIZE_PER_IMAGE = 512, POSITIVE_FRACTION = 1 / 4, CONV_DIMS = [512, 512],
              other = [(''kernel_size'', 7)]\<rparr>
             \<lparr>channels = 256\<rparr> of
        Inl e \<Rightarrow> False
      | Inr head \<Rightarrow> kernel_size (conv (spatialAtt head)) = 3
                     \<and> padding (conv (spatialAtt head)) = 1)"
proof -
  obtain sa where sa: "SpatialAttention_init (''weight_init'' # module_globals) 7 = Inr sa"
    by (simp add: SpatialAttention_init_def lookup_global_def)
  obtain head where hd:
    "KRCNN_init (''weight_init'' # module_globals)
       \<lparr>LOSS_WEIGHT = 1, NORMALIZE_LOSS_BY_VISIBLE_KEYPOINTS = True, NUM_KEYPOINTS = 17,
        BATCH_SIZE_PER_IMAGE = 512, POSITIVE_FRACTION = 1 / 4, CONV_DIMS = [512, 512],
        other = [(''kernel_size'', 7)]\<rparr>
       \<lparr>channels = 256\<rparr> = Inr head"
    by (simp add: KRCNN_init_def SpatialAttention_init_def lookup_global_def Let_def
        split_beta)
  show ?thesis
    using gate_kernel_size_fixed [OF sa hd] by (simp add: sa hd)
qed

text \<open>
  C6, as stated, fails: with \<open>kernel_size\<close> 7 in the configuration, the module as written
  builds no head (NameError), and in a namespace that binds \<open>weight_init\<close> the head's gate
  has kernel size 3.
\<close>

theorem configured_kernel_size_ignored:
  "KRCNN_init module_globals
     \<lparr>LOSS_WEIGHT = 1, NORMALIZE_LOSS_BY_VISIBLE_KEYPOINTS = True, NUM_KEYPOINTS = 17,
      BATCH_SIZE_PER_IMAGE = 512, POSITIVE_FRACTION = 1 / 4, CONV_DIMS = [512, 512],
      other = [(''kernel_size'', 7)]\<rparr>
     \<lparr>channels = 256\<rparr> = Inl NameError
   \<and> map_sum id (\<lambda>head. kernel_size (conv (spatialAtt head)))
       (KRCNN_init (''weight_init'' # module_globals)
          \<lparr>LOSS_WEIGHT = 1, NORMALIZE_LOSS_BY_VISIBLE_KEYPOINTS = True, NUM_KEYPOINTS = 17,
           BATCH_SIZE_PER_IMAGE = 512, POSITIVE_FRACTION = 1 / 4, CONV_DIMS = [512, 512],
           other = [(''kernel_size'', 7)]\<rparr>
          \<lparr>channels = 256\<rparr>) = Inr 3"
  by (simp add: KRCNN_init_def SpatialAttention_init_def lookup_global_def Let_def split_beta
      module_globals_def BaseKeypointRCNNHead.extend_def Base_init_def)

text \<open>
  C8. For an input of shape \<open>(0, C, H, W)\<close> the wrapper \<open>Max\<close> returns the new empty
  tensor of shape \<open>(0, 1, H, W)\<close> instead of calling the reduction, and the forward pass
  of a constructed gate raises nothing and returns the shape \<open>(0, C, H, W)\<close>.
\<close>

theorem SpatialAttention_forward_empty:
  assumes "SpatialAttention_init globals ksize = Inr sa"
  shows "Max_sam (0, C, H, W) = Inr (NewEmptyTensorOp (0, C, H, W) (0, 1, H, W))
       \<and> SpatialAttention_forward sa (0, C, H, W) = Inr (0, C, H, W)"
  using SpatialAttention_forward_shape [OF assms] by simp

theorem SpatialAttention_forward_empty_witness:
  "SpatialAttention_init (''weight_init'' # module_globals) 7 =
     Inr \<lparr>conv = \<lparr>in_channels = 2, out_channels = 1, kernel_size = 7, stride = 1,
                  padding = 3\<rparr>\<rparr>
   \<and> Max_sam (0, 256, 14, 14) = Inr (0, 1, 14, 14)
   \<and> SpatialAttention_forward
        \<lparr>conv = \<lparr>in_channels = 2, out_channels = 1, kernel_size = 7, stride = 1,
                 padding = 3\<rparr>\<rparr>
        (0, 256, 14, 14) = Inr (0, 256, 14, 14)"
proof -
  have h: "SpatialAttention_init (''weight_init'' # module_globals) 7 =
     Inr \<lparr>conv = \<lparr>in_channels = 2, out_channels = 1, kernel_size = 7, stride = 1,
                  padding = 3\<rparr>\<rparr>"
    by (simp add: SpatialAttention_init_def lookup_global_def)
  show ?thesis
    using h SpatialAttention_forward_empty [OF h, of 256 14 14]
    by (simp add: NewEmptyTensorOp_def)
qed

text \<open>
  C9. For a constructed head and an input of shape \<open>(R, C_in, H, W)\<close>, where \<open>C_in\<close> is
  the channel count the head was built for, \<open>layers\<close> (the gate, the 3x3 convolutions with
  ReLU, the transposed convolution to \<open>K\<close> channels and the 2x upsample) returns the shape
  \<open>(R, K, 4H, 4W)\<close>.
\<close>

theorem layers_shape:
  assumes "KRCNN_init globals c input_shape = Inr head"
  shows "layers head (R, channels input_shape, H, W) = Inr (R, NUM_KEYPOINTS c, 4 * H, 4 * W)"
proof -
  note f = KRCNN_init_Inr [OF assms]
  have sa: "SpatialAttention_init globals 3 = Inr (spatialAtt head)"
    using f by simp
  have d: "deconv_out i (score_lowres head) = 2 * i" for i
    by (rule deconv_out_double) (simp_all add: f)
  have b: "apply_blocks (blocks head) (R, channels input_shape, H, W)
             = Inr (R, in_channels (score_lowres head), H, W)"
    using f by (simp add: apply_blocks_conv_blocks)
  have u: "up_scale head = 2" "out_channels (score_lowres head) = NUM_KEYPOINTS c"
    "stride (score_lowres head) = 2"
    using f by simp_all
  show ?thesis
    by (simp add: layers_def SpatialAttention_forward_shape [OF sa] b d u)
qed

theorem layers_shape_witness:
  "(case KRCNN_init (''weight_init'' # module_globals)
           \<lparr>LOSS_WEIGHT = 1, NORMALIZE_LOSS_BY_VISIBLE_KEYPOINTS = True, NUM_KEYPOINTS = 17,
            BATCH_SIZE_PER_IMAGE = 512, POSITIVE_FRACTION = 1 / 4, CONV_DIMS = [512, 512],
            other = []\<rparr>
           \<lparr>channels = 256\<rparr> of
      Inl e \<Rightarrow> False
    | Inr head \<Rightarrow> layers head (8, 256, 14, 14) = Inr (8, 17, 56, 56))"
proof -
  obtain head where hd:
    "KRCNN_init (''weight_init'' # module_globals)
       \<lparr>LOSS_WEIGHT = 1, NORMALIZE_LOSS_BY_VISIBLE_KEYPOINTS = True, NUM_KEYPOINTS = 17,
        BATCH_SIZE_PER_IMAGE = 512, POSITIVE_FRACTION = 1 / 4, CONV_DIMS = [512, 512],
        other = []\<rparr>
       \<lparr>channels = 256\<rparr> = Inr head"
    by (simp add: KRCNN_init_def SpatialAttention_init_def lookup_global_def Let_def
        split_beta)
  show ?thesis
    using layers_shape [OF hd, of 8 14 14] by (simp add: hd)
qed

subsection \<open>The training loss\<close>

lemma collect_heatmaps_readable:
  "readable is \<Longrightarrow>
   collect_heatmaps enc h side is =
     Inr (map (\<lambda>i. map fst (image_targets enc h side i)) (filter (\<lambda>i. num_instances i \<noteq> 0) is),
          map (\<lambda>i. map snd (image_targets enc h side i)) (filter (\<lambda>i. num_instances i \<noteq> 0) is))"
  by (induction "is")
     (auto simp: readable_def annotated_def image_targets_def getattr_def Let_def)

lemma collect_heatmaps_unreadable:
  "\<not> readable is \<Longrightarrow> \<exists>e. collect_heatmaps enc h side is = Inl e"
  by (induction "is")
     (auto simp: readable_def annotated_def getattr_def Let_def split: option.splits sum.splits)

lemma torch_nonzero_flags:
  "torch_nonzero (map to_uint8 fl) = filter (\<lambda>i. fl ! i) [0..<length fl]"
  unfolding torch_nonzero_def
  by (rule trans [OF _ filter_cong [OF refl]], simp) (simp add: to_uint8_def)

lemma concat_map_fst: "concat (map (\<lambda>i. map fst (f i)) xs) = map fst (concat (map f xs))"
  by (simp add: map_concat comp_def)

lemma concat_map_snd: "concat (map (\<lambda>i. map snd (f i)) xs) = map snd (concat (map f xs))"
  by (simp add: map_concat comp_def)

lemma valid_of_targets:
  "torch_nonzero (map to_uint8 (map snd T)) = valid_indices T"
  unfolding torch_nonzero_flags valid_indices_def
  by (rule filter_cong) simp_all

lemma valid_indices_empty: "valid_indices T = [] \<longleftrightarrow> list_all (\<lambda>tv. \<not> snd tv) T"
  by (auto simp: valid_indices_def filter_empty_conv list_all_length)

lemma set_valid_indices: "set (valid_indices T) = valid_rows T"
  by (auto simp: valid_indices_def valid_rows_def)

lemma distinct_valid_indices: "distinct (valid_indices T)"
  by (simp add: valid_indices_def)

lemma no_images_iff:
  "filter (\<lambda>i. num_instances i \<noteq> 0) is = [] \<longleftrightarrow> list_all (\<lambda>i. num_instances i = 0) is"
  by (auto simp: filter_empty_conv list_all_iff)

lemma no_images_iff':
  "filter (\<lambda>i. 0 < num_instances i) is = [] \<longleftrightarrow> list_all (\<lambda>i. num_instances i = 0) is"
  by (auto simp: filter_empty_conv list_all_iff)

lemma loss_raises:
  assumes "\<not> (3 \<le> length (shape logits) \<and> readable is)"
  shows "\<exists>e. keypoint_rcnn_loss fsum enc logits is nz w = (Inl e, w)"
proof (cases "length (shape logits) < 3")
  case True
  then show ?thesis by (simp add: keypoint_rcnn_loss_def)
next
  case False
  with assms have "\<not> readable is" by simp
  from collect_heatmaps_unreadable [OF this]
  obtain e where "collect_heatmaps enc (heap w) (shape logits ! 2) is = Inl e" by blast
  with False show ?thesis by (simp add: keypoint_rcnn_loss_def)
qed

lemma loss_unfold:
  assumes "3 \<le> length (shape logits)" and "readable is"
  shows "keypoint_rcnn_loss fsum enc logits is nz w =
           (let T = heatmap_targets enc (heap w) (shape logits ! 2) is;
                d = (case nz of None \<Rightarrow> real (length (valid_indices T)) | Some n \<Rightarrow> n)
            in if degenerate_batch enc (heap w) (shape logits ! 2) is then
                 (case fsum (tdata (heap w) logits) of
                    None \<Rightarrow>
                      (Inl NonFinite,
                       w\<lparr>TOTAL_SKIPPED := TOTAL_SKIPPED w + 1,
                         event_storage := event_storage w
                           @ [(''kpts_num_skipped_batches'', TOTAL_SKIPPED w + 1)]\<rparr>)
                  | Some s \<Rightarrow>
                      (Inr \<lparr>storage = Suc (length (heap w)), offset = 0, shape = []\<rparr>,
                       w\<lparr>heap := heap w @ [[s], [s * 0]],
                         TOTAL_SKIPPED := TOTAL_SKIPPED w + 1,
                         event_storage := event_storage w
                           @ [(''kpts_num_skipped_batches'', TOTAL_SKIPPED w + 1)],
                         graph := graph w @ [(length (heap w), storage logits),
                                             (Suc (length (heap w)), length (heap w))]\<rparr>))
               else
                 case keypoint_loss_sum (heap w) logits (map fst T) (valid_indices T) of
                   Inl e \<Rightarrow> (Inl e, w)
                 | Inr l \<Rightarrow>
                     if d = 0
                     then (Inl NonFinite,
                           w\<lparr>heap := heap w @ [[l]],
                             graph := graph w @ [(length (heap w), storage logits)]\<rparr>)
                     else (Inr \<lparr>storage = length (heap w), offset = 0, shape = []\<rparr>,
                           w\<lparr>heap := heap w @ [[l / d]],
                             graph := graph w @ [(length (heap w), storage logits)]\<rparr>))"
proof -
  define T where "T = heatmap_targets enc (heap w) (shape logits ! 2) is"
  define hs where "hs = map (\<lambda>i. map fst (image_targets enc (heap w) (shape logits ! 2) i))
                          (filter (\<lambda>i. num_instances i \<noteq> 0) is)"
  define vs where "vs = map (\<lambda>i. map snd (image_targets enc (heap w) (shape logits ! 2) i))
                          (filter (\<lambda>i. num_instances i \<noteq> 0) is)"
  have ch: "collect_heatmaps enc (heap w) (shape logits ! 2) is = Inr (hs, vs)"
    unfolding hs_def vs_def by (rule collect_heatmaps_readable [OF assms(2)])
  have kt: "concat hs = map fst T"
    unfolding hs_def T_def heatmap_targets_def by (rule concat_map_fst)
  have "concat vs = map snd T"
    unfolding vs_def T_def heatmap_targets_def by (rule concat_map_snd)
  then have va: "torch_nonzero (map to_uint8 (concat vs)) = valid_indices T"
    by (simp only: valid_of_targets)
  have he: "hs = [] \<longleftrightarrow> list_all (\<lambda>i. num_instances i = 0) is"
    unfolding hs_def by (simp only: map_is_Nil_conv no_images_iff)
  have dg: "degenerate_batch enc (heap w) (shape logits ! 2) is
            \<longleftrightarrow> hs = [] \<or> valid_indices T = []"
    unfolding degenerate_batch_def he valid_indices_empty T_def ..
  have n3: "\<not> length (shape logits) < 3" using assms(1) by simp
  have one: "prod_list ([]::nat list) = 1" by simp
  show ?thesis
  proof (cases "hs = [] \<or> valid_indices T = []")
    case True
    then have c: "(hs = [] \<or> (if hs \<noteq> [] then valid_indices T else []) = []) = True"
      by auto
    show ?thesis
      unfolding keypoint_rcnn_loss_def Let_def T_def [symmetric]
      by (simp only: n3 if_False ch sum.case prod.case va c if_True dg True
          torch_sum_def torch_mul_scalar_def alloc_def put_scalar_def)
         (simp add: tdata_def numel_def split: option.split)
  next
    case False
    then have c: "(hs = [] \<or> (if hs \<noteq> [] then valid_indices T else []) = []) = False"
      by auto
    from False have hne: "(hs \<noteq> []) = True" "(hs = []) = False" "(valid_indices T = []) = False"
      by auto
    from False have dgF: "degenerate_batch enc (heap w) (shape logits ! 2) is = False"
      using dg by simp
    show ?thesis
      unfolding keypoint_rcnn_loss_def Let_def T_def [symmetric]
      apply (simp only: n3 if_False if_True ch sum.case prod.case va hne simp_thms dgF kt
          alloc_def div_inplace_def)
      apply (cases "keypoint_loss_sum (heap w) logits (map fst T) (valid_indices T)")
       apply (simp_all add: map_range_def numel_def)
      done
  qed
qed

lemma length_heatmap_targets:
  assumes "batch_matches enc h logits is"
  shows "length (heatmap_targets enc h (shape logits ! 2) is) = shape logits ! 0 * shape logits ! 1"
proof -
  let ?K = "shape logits ! 1"
  let ?ne = "filter (\<lambda>i. num_instances i \<noteq> 0) is"
  have a: "\<forall>i\<in>set ?ne. length (image_targets enc h (shape logits ! 2) i) = num_instances i * ?K"
    using assms by (simp add: batch_matches_def list_all_iff)
  have "length (heatmap_targets enc h (shape logits ! 2) is)
          = sum_list (map (\<lambda>i. length (image_targets enc h (shape logits ! 2) i)) ?ne)"
    by (simp add: heatmap_targets_def length_concat comp_def)
  also have "\<dots> = sum_list (map (\<lambda>i. num_instances i * ?K) ?ne)"
    using a by (intro arg_cong [where f = sum_list] map_cong) auto
  also have "\<dots> = sum_list (map (\<lambda>i. num_instances i * ?K) is)"
    by (induction "is") auto
  also have "\<dots> = sum_list (map num_instances is) * ?K"
    by (simp add: sum_list_mult_const)
  finally show ?thesis
    using assms by (simp add: batch_matches_def)
qed

lemma cross_entropy_sum_map:
  assumes "\<forall>i\<in>set idx. t i < length (r i)"
  shows "cross_entropy_sum (map r idx) (map t idx)
           = Inr (\<Sum>i\<leftarrow>idx. row_cross_entropy (r i) (t i))"
  using assms
  by (induction idx) (simp_all add: cross_entropy_row_def row_cross_entropy_def)

lemma length_logits_row:
  assumes "wf_tensor h t" and "shape t = [N, K, H, W]" and "i < N * K"
  shows "length (logits_row h t i) = H * W"
proof -
  have "Suc i * (H * W) \<le> N * K * (H * W)"
    using assms(3) by (intro mult_le_mono1) simp
  moreover have "offset t + N * K * (H * W) \<le> length (h ! storage t)"
    using assms(1,2) by (simp add: wf_tensor_def numel_def mult.assoc)
  ultimately show ?thesis
    by (simp add: logits_row_def assms(2) Let_def)
qed

lemma keypoint_loss_sum_eq:
  assumes "batch_matches enc h logits is"
  shows "keypoint_loss_sum h logits
           (map fst (heatmap_targets enc h (shape logits ! 2) is))
           (valid_indices (heatmap_targets enc h (shape logits ! 2) is))
         = Inr (summed_cross_entropy h logits (heatmap_targets enc h (shape logits ! 2) is))"
proof -
  define T where "T = heatmap_targets enc h (shape logits ! 2) is"
  from assms have "length (shape logits) = 4" by (simp add: batch_matches_def)
  then obtain N K H W where sh: "shape logits = [N, K, H, W]"
    by (auto simp: length_Suc_conv numeral_eq_Suc)
  have wf: "wf_tensor h logits" using assms by (simp add: batch_matches_def)
  have len: "length T = N * K"
    using length_heatmap_targets [OF assms] by (simp add: T_def sh)
  have bins: "\<forall>tv\<in>set T. snd tv \<longrightarrow> fst tv < H * W"
    using assms by (simp add: batch_matches_def list_all_iff T_def sh)
  have vlt: "\<forall>i\<in>set (valid_indices T). i < N * K"
    by (auto simp: valid_indices_def len)
  let ?l2 = "logits\<lparr>shape := [N * K, H * W]\<rparr>"
  have v: "view logits [N * K, H * W] = Inr ?l2"
    by (simp add: view_def numel_def sh mult.assoc)
  have rows: "index_rows h ?l2 (valid_indices T) = Inr (map (logits_row h logits) (valid_indices T))"
    using vlt by (auto simp: index_rows_def list_all_iff row2d_def logits_row_def sh Let_def)
  have tg: "index_list (map fst T) (valid_indices T)
              = Inr (map (\<lambda>i. fst (T ! i)) (valid_indices T))"
    using vlt by (auto simp: index_list_def list_all_iff len)
  have ok: "\<forall>i\<in>set (valid_indices T). fst (T ! i) < length (logits_row h logits i)"
  proof
    fix i assume i: "i \<in> set (valid_indices T)"
    then have "i < length T" "snd (T ! i)" by (auto simp: valid_indices_def)
    then have "fst (T ! i) < H * W" using bins nth_mem by blast
    moreover have "length (logits_row h logits i) = H * W"
      using length_logits_row [OF wf sh] \<open>i < length T\<close> len by simp
    ultimately show "fst (T ! i) < length (logits_row h logits i)" by simp
  qed
  have "keypoint_loss_sum h logits (map fst T) (valid_indices T)
          = Inr (\<Sum>i\<leftarrow>valid_indices T. row_cross_entropy (logits_row h logits i) (fst (T ! i)))"
    by (simp add: keypoint_loss_sum_def sh v rows tg cross_entropy_sum_map [OF ok])
  also have "(\<Sum>i\<leftarrow>valid_indices T. row_cross_entropy (logits_row h logits i) (fst (T ! i)))
          = summed_cross_entropy h logits T"
    unfolding summed_cross_entropy_def set_valid_indices [symmetric]
    by (rule sum_list_distinct_conv_sum_set [OF distinct_valid_indices])
  finally show ?thesis by (simp add: T_def)
qed

lemma ex_targets_visible:
  "heatmap_targets example_encoder (heap example_world) 2 [visible_image, empty_image]
     = [(2, True), (3, False)]"
  by (simp add: heatmap_targets_def image_targets_def tval_def tdata_def numel_def ex_defs)

lemma ex_targets_invisible:
  "heatmap_targets example_encoder (heap example_world) 2 [empty_image, invisible_image]
     = [(2, False), (3, False)]"
  by (simp add: heatmap_targets_def image_targets_def tval_def tdata_def numel_def ex_defs)

lemma ex_shape: "shape example_logits ! 2 = 2" "length (shape example_logits) = 4"
  by (simp_all add: example_logits_def)

lemma ex_valid_rows: "valid_rows [(2, True), (3, False)] = {0}"
  by (auto simp: valid_rows_def nth_Cons' )

lemma ex_sce:
  "summed_cross_entropy (heap example_world) example_logits [(2, True), (3, False)]
     = ln (exp 1 + (exp 2 + (exp 3 + exp 4))) - 3"
  by (simp add: summed_cross_entropy_def ex_valid_rows row_cross_entropy_def logits_row_def
      ex_defs)

lemma ex_matches:
  "batch_matches example_encoder (heap example_world) example_logits [visible_image, empty_image]"
  unfolding batch_matches_def ex_shape ex_targets_visible
  by (simp add: wf_tensor_def numel_def readable_def annotated_def image_targets_def
      tval_def tdata_def ex_defs)

lemma ex_nondegenerate:
  "\<not> degenerate_batch example_encoder (heap example_world) (shape example_logits ! 2)
        [visible_image, empty_image]"
  unfolding degenerate_batch_def ex_shape ex_targets_visible
  by (simp add: ex_defs)

lemma ex_degenerate:
  "degenerate_batch example_encoder (heap example_world) (shape example_logits ! 2)
        [empty_image, invisible_image]"
  unfolding degenerate_batch_def ex_shape ex_targets_invisible
  by simp

lemma ex_readable: "readable [empty_image, invisible_image]"
  by (simp add: readable_def annotated_def ex_defs)

lemma tdata_alloc_last:
  "tdata (hp @ [xs]) \<lparr>storage = length hp, offset = 0, shape = []\<rparr> = take 1 xs"
  by (simp add: tdata_def numel_def)

lemma tdata_alloc_last2:
  "tdata (hp @ [ys, xs]) \<lparr>storage = Suc (length hp), offset = 0, shape = []\<rparr> = take 1 xs"
  by (simp add: tdata_def numel_def nth_append)





text \<open>
  C2. For a batch with a valid keypoint, the loss before normalization (lines 74 to 79,
  on the targets and the indices \<open>valid\<close> that lines 61 to 63 compute) is the sum, over
  exactly the rows of the logits reshaped to \<open>(R\<cdot>K, S\<cdot>S)\<close> whose index is a true validity
  flag, of the cross-entropy of the row against its target bin; with the normalizer 1 it
  is the loss the function returns.
\<close>

theorem summed_loss_over_valid_rows:
  assumes "batch_matches enc (heap w) logits is"
      and "\<not> degenerate_batch enc (heap w) (shape logits ! 2) is"
  shows "keypoint_loss_sum (heap w) logits
           (map fst (heatmap_targets enc (heap w) (shape logits ! 2) is))
           (torch_nonzero (map to_uint8
              (map snd (heatmap_targets enc (heap w) (shape logits ! 2) is))))
         = Inr (summed_cross_entropy (heap w) logits
                  (heatmap_targets enc (heap w) (shape logits ! 2) is))
       \<and> (\<exists>t w'. keypoint_rcnn_loss fsum enc logits is (Some 1) w = (Inr t, w')
             \<and> tdata (heap w') t
                 = [summed_cross_entropy (heap w) logits
                      (heatmap_targets enc (heap w) (shape logits ! 2) is)])"
proof -
  have r: "3 \<le> length (shape logits)" "readable is"
    using assms(1) by (simp_all add: batch_matches_def)
  have "\<exists>t w'. keypoint_rcnn_loss fsum enc logits is (Some 1) w = (Inr t, w')
             \<and> tdata (heap w') t
                 = [summed_cross_entropy (heap w) logits
                      (heatmap_targets enc (heap w) (shape logits ! 2) is)]"
    using loss_unfold [OF r, of fsum enc "Some 1" w] assms(2)
    by (simp add: keypoint_loss_sum_eq [OF assms(1)] Let_def tdata_alloc_last)
  then show ?thesis
    unfolding valid_of_targets keypoint_loss_sum_eq [OF assms(1)] by simp
qed

theorem summed_loss_over_valid_rows_witness:
  "batch_matches example_encoder (heap example_world) example_logits [visible_image, empty_image]
   \<and> \<not> degenerate_batch example_encoder (heap example_world) (shape example_logits ! 2)
        [visible_image, empty_image]
   \<and> keypoint_loss_sum (heap example_world) example_logits [2, 3] [0]
       = Inr (ln (exp 1 + (exp 2 + (exp 3 + exp 4))) - 3)"
proof -
  have v: "torch_nonzero [to_uint8 True, to_uint8 False] = [0]"
    by (simp add: torch_nonzero_def to_uint8_def upt_conv_Cons)
  from summed_loss_over_valid_rows [OF ex_matches ex_nondegenerate]
  have "keypoint_loss_sum (heap example_world) example_logits [2, 3] [0]
       = Inr (ln (exp 1 + (exp 2 + (exp 3 + exp 4))) - 3)"
    unfolding ex_shape ex_targets_visible by (simp add: v ex_sce del: One_nat_def)
  then show ?thesis
    using ex_matches ex_nondegenerate by simp
qed

lemma length_valid_indices: "length (valid_indices T) = card (valid_rows T)"
  using distinct_card [OF distinct_valid_indices, of T] by (simp add: set_valid_indices)

lemma card_valid_rows_pos:
  assumes "\<not> degenerate_batch enc h side is"
  shows "0 < card (valid_rows (heatmap_targets enc h side is))"
proof -
  have "valid_indices (heatmap_targets enc h side is) \<noteq> []"
    using assms by (simp add: degenerate_batch_def valid_indices_empty)
  then show ?thesis
    by (simp add: length_valid_indices [symmetric])
qed

lemma loss_value:
  assumes "batch_matches enc (heap w) logits is"
      and "\<not> degenerate_batch enc (heap w) (shape logits ! 2) is"
      and "nz \<noteq> Some 0"
  shows "keypoint_rcnn_loss fsum enc logits is nz w =
           (Inr \<lparr>storage = length (heap w), offset = 0, shape = []\<rparr>,
            w\<lparr>heap := heap w @
               [[summed_cross_entropy (heap w) logits
                    (heatmap_targets enc (heap w) (shape logits ! 2) is)
                  / (case nz of
                       Some n \<Rightarrow> n
                     | None \<Rightarrow> real (card (valid_rows
                                 (heatmap_targets enc (heap w) (shape logits ! 2) is))))]],
              graph := graph w @ [(length (heap w), storage logits)]\<rparr>)"
proof -
  have r: "3 \<le> length (shape logits)" "readable is"
    using assms(1) by (simp_all add: batch_matches_def)
  have "(case nz of
           None \<Rightarrow> real (length (valid_indices (heatmap_targets enc (heap w) (shape logits ! 2) is)))
         | Some n \<Rightarrow> n) \<noteq> 0"
    using assms(3) card_valid_rows_pos [OF assms(2)]
    by (cases nz) (simp_all add: length_valid_indices)
  then show ?thesis
    using loss_unfold [OF r, of fsum enc nz w] assms(2)
    by (cases nz)
       (simp_all add: keypoint_loss_sum_eq [OF assms(1)] Let_def length_valid_indices)
qed

text \<open>
  C3. On the non-degenerate path the summed loss is divided by the explicit normalizer
  when one is supplied, and by the number of valid keypoints when it is \<open>None\<close>. The
  controller in training mode supplies \<open>None\<close> when it normalizes by visible keypoints and
  otherwise \<open>K\<close> times the per-image budget times the positive fraction times the number of
  images; it multiplies the quotient by the loss weight and returns it in a dict under
  \<open>loss_keypoint\<close>. (A zero normalizer gives a non-finite float and is excluded.)
\<close>

theorem loss_normalizer_choice:
  assumes "layers_hook x w0 = (Inr logits, w)"
      and "batch_matches enc (heap w) logits is"
      and "\<not> degenerate_batch enc (heap w) (shape logits ! 2) is"
      and "BaseKeypointRCNNHead.truncate self = Base_init c"
      and "nz \<noteq> Some 0"
      and "NORMALIZE_LOSS_BY_VISIBLE_KEYPOINTS c
           \<or> real (NUM_KEYPOINTS c) * real (BATCH_SIZE_PER_IMAGE c) * POSITIVE_FRACTION c
               * real (length is) \<noteq> 0"
  shows "(\<exists>t w'. keypoint_rcnn_loss fsum enc logits is nz w = (Inr t, w')
            \<and> tdata (heap w') t
                = [summed_cross_entropy (heap w) logits
                     (heatmap_targets enc (heap w) (shape logits ! 2) is)
                   / (case nz of
                        Some n \<Rightarrow> n
                      | None \<Rightarrow> real (card (valid_rows
                                  (heatmap_targets enc (heap w) (shape logits ! 2) is))))])
       \<and> (\<exists>t w'. forward layers_hook fsum enc dec self x is w0
                     = (Inr (Losses [(''loss_keypoint'', t)]), w')
            \<and> tdata (heap w') t
                = [summed_cross_entropy (heap w) logits
                     (heatmap_targets enc (heap w) (shape logits ! 2) is)
                   / (if NORMALIZE_LOSS_BY_VISIBLE_KEYPOINTS c
                      then real (card (valid_rows
                             (heatmap_targets enc (heap w) (shape logits ! 2) is)))
                      else real (NUM_KEYPOINTS c) * real (BATCH_SIZE_PER_IMAGE c)
                           * POSITIVE_FRACTION c * real (length is))
                   * LOSS_WEIGHT c])"
proof -
  let ?S = "summed_cross_entropy (heap w) logits
              (heatmap_targets enc (heap w) (shape logits ! 2) is)"
  let ?V = "real (card (valid_rows (heatmap_targets enc (heap w) (shape logits ! 2) is)))"
  have f: "training self" "loss_weight self = LOSS_WEIGHT c"
    "normalize_by_visible_keypoints self = NORMALIZE_LOSS_BY_VISIBLE_KEYPOINTS c"
    "normalizer_per_img self
       = real (NUM_KEYPOINTS c) * real (BATCH_SIZE_PER_IMAGE c) * POSITIVE_FRACTION c"
    using arg_cong [OF assms(4), of training] arg_cong [OF assms(4), of loss_weight]
      arg_cong [OF assms(4), of normalize_by_visible_keypoints]
      arg_cong [OF assms(4), of normalizer_per_img]
    by (simp_all add: BaseKeypointRCNNHead.truncate_def Base_init_def)
  let ?P = "real (NUM_KEYPOINTS c) * real (BATCH_SIZE_PER_IMAGE c) * POSITIVE_FRACTION c"
  let ?d = "if NORMALIZE_LOSS_BY_VISIBLE_KEYPOINTS c then ?V else ?P * real (length is)"
  have l: "keypoint_rcnn_loss fsum enc logits is
             (if NORMALIZE_LOSS_BY_VISIBLE_KEYPOINTS c then None
              else Some (real (length is) * ?P)) w
           = (Inr \<lparr>storage = length (heap w), offset = 0, shape = []\<rparr>,
              w\<lparr>heap := heap w @ [[?S / ?d]],
                graph := graph w @ [(length (heap w), storage logits)]\<rparr>)"
  proof (cases "NORMALIZE_LOSS_BY_VISIBLE_KEYPOINTS c")
    case True
    then show ?thesis using loss_value [OF assms(2,3), where nz = None] by simp
  next
    case False
    with assms(6) have "Some (real (length is) * ?P) \<noteq> Some 0" by (simp add: mult.commute)
    from loss_value [OF assms(2,3) this] False show ?thesis by (simp add: mult.commute)
  qed
  have "forward layers_hook fsum enc dec self x is w0
          = (Inr (Losses [(''loss_keypoint'',
                \<lparr>storage = Suc (length (heap w)), offset = 0, shape = []\<rparr>)]),
             w\<lparr>heap := heap w @ [[?S / ?d], [?S / ?d * LOSS_WEIGHT c]],
               graph := graph w @ [(length (heap w), storage logits),
                                   (Suc (length (heap w)), length (heap w))]\<rparr>)"
  proof -
    have tr: "training self = True" using f(1) by simp
    show ?thesis
      unfolding forward_def assms(1) prod.case sum.case Let_def f(2,3,4) tr
      by (simp only: if_True l prod.case sum.case torch_mul_scalar_def alloc_def)
         (simp add: tdata_def numel_def)
  qed
  then have "\<exists>t w'. forward layers_hook fsum enc dec self x is w0
                     = (Inr (Losses [(''loss_keypoint'', t)]), w')
            \<and> tdata (heap w') t = [?S / ?d * LOSS_WEIGHT c]"
    by (simp add: tdata_alloc_last2)
  then show ?thesis
    using loss_value [OF assms(2,3,5)] by (simp add: tdata_alloc_last)
qed

theorem loss_normalizer_choice_witness:
  "batch_matches example_encoder (heap example_world) example_logits [visible_image, empty_image]
   \<and> \<not> degenerate_batch example_encoder (heap example_world) (shape example_logits ! 2)
        [visible_image, empty_image]
   \<and> (\<exists>t w'. keypoint_rcnn_loss float32_sum example_encoder example_logits [visible_image, empty_image]
                 (Some 8) example_world = (Inr t, w')
         \<and> tdata (heap w') t = [(ln (exp 1 + (exp 2 + (exp 3 + exp 4))) - 3) / 8])
   \<and> (\<exists>t w'. forward example_layers float32_sum example_encoder example_decoder (Base_init example_cfg)
                 example_logits [visible_image, empty_image] example_world
                 = (Inr (Losses [(''loss_keypoint'', t)]), w')
         \<and> tdata (heap w') t = [(ln (exp 1 + (exp 2 + (exp 3 + exp 4))) - 3) / 4 * 5])"
proof -
  have a: "example_layers example_logits example_world = (Inr example_logits, example_world)"
    by (simp add: example_layers_def)
  have b: "BaseKeypointRCNNHead.truncate (Base_init example_cfg) = Base_init example_cfg"
    by (simp add: BaseKeypointRCNNHead.truncate_def Base_init_def)
  have c: "Some (8::real) \<noteq> Some 0" by simp
  have d: "NORMALIZE_LOSS_BY_VISIBLE_KEYPOINTS example_cfg
           \<or> real (NUM_KEYPOINTS example_cfg) * real (BATCH_SIZE_PER_IMAGE example_cfg)
               * POSITIVE_FRACTION example_cfg
               * real (length [visible_image, empty_image]) \<noteq> 0"
    by (simp add: example_cfg_def)
  from loss_normalizer_choice [of example_layers example_logits example_world example_logits
      example_world example_encoder "[visible_image, empty_image]" "Base_init example_cfg"
      example_cfg "Some 8" float32_sum example_decoder, OF a ex_matches ex_nondegenerate b c d]
  show ?thesis
    unfolding ex_shape ex_targets_visible ex_sce
    using ex_matches ex_nondegenerate
    by (simp add: example_cfg_def ex_shape)
qed

lemma loss_step:
  "\<exists>xs. heap (snd (keypoint_rcnn_loss fsum enc logits is nz w)) = heap w @ xs
        \<and> TOTAL_SKIPPED (snd (keypoint_rcnn_loss fsum enc logits is nz w))
            = TOTAL_SKIPPED w + (if skips enc logits is (heap w) then 1 else 0)
        \<and> event_storage (snd (keypoint_rcnn_loss fsum enc logits is nz w))
            = event_storage w
              @ (if skips enc logits is (heap w)
                 then [(''kpts_num_skipped_batches'', TOTAL_SKIPPED w + 1)] else [])"
proof (cases "3 \<le> length (shape logits) \<and> readable is")
  case False
  from loss_raises [OF this, of fsum enc nz w] False show ?thesis
    by (auto simp: skips_def)
next
  case True
  then have r: "3 \<le> length (shape logits)" "readable is" by simp_all
  show ?thesis
  proof (cases "degenerate_batch enc (heap w) (shape logits ! 2) is")
    case True
    with r loss_unfold [OF r, of fsum enc nz w] show ?thesis
      by (cases "fsum (tdata (heap w) logits)") (simp_all add: skips_def Let_def)
  next
    case False
    with r loss_unfold [OF r, of fsum enc nz w] show ?thesis
      by (auto simp: skips_def Let_def split: sum.splits)
  qed
qed

lemma tdata_heap_append:
  "storage t < length hp \<Longrightarrow> tdata (hp @ xs) t = tdata hp t"
  by (simp add: tdata_def nth_append)

text \<open>
  C10. An invocation of the loss leaves every tensor stored before the call (the logits,
  the keypoint sets and the reference boxes among them) with the elements it had: the old
  heap is a prefix of the new one, to which the call only adds the tensors it creates. The
  counter and the event storage change on the degenerate path only, by one increment and
  one report.
\<close>

theorem loss_leaves_inputs:
  assumes "storage t < length (heap w)"
  shows "tdata (heap (snd (keypoint_rcnn_loss fsum enc logits is nz w))) t = tdata (heap w) t
       \<and> take (length (heap w)) (heap (snd (keypoint_rcnn_loss fsum enc logits is nz w))) = heap w
       \<and> TOTAL_SKIPPED (snd (keypoint_rcnn_loss fsum enc logits is nz w))
           = TOTAL_SKIPPED w + (if skips enc logits is (heap w) then 1 else 0)
       \<and> event_storage (snd (keypoint_rcnn_loss fsum enc logits is nz w))
           = event_storage w
             @ (if skips enc logits is (heap w)
                then [(''kpts_num_skipped_batches'', TOTAL_SKIPPED w + 1)] else [])"
proof -
  from loss_step [of fsum enc logits "is" nz w]
  obtain xs where "heap (snd (keypoint_rcnn_loss fsum enc logits is nz w)) = heap w @ xs"
    and "TOTAL_SKIPPED (snd (keypoint_rcnn_loss fsum enc logits is nz w))
            = TOTAL_SKIPPED w + (if skips enc logits is (heap w) then 1 else 0)"
    and "event_storage (snd (keypoint_rcnn_loss fsum enc logits is nz w))
            = event_storage w
              @ (if skips enc logits is (heap w)
                 then [(''kpts_num_skipped_batches'', TOTAL_SKIPPED w + 1)] else [])"
    by blast
  then show ?thesis
    using assms by (simp add: tdata_heap_append)
qed

theorem loss_leaves_inputs_witness:
  "storage example_logits < length (heap example_world)
   \<and> tdata (heap (snd (keypoint_rcnn_loss float32_sum example_encoder example_logits
                         [visible_image, empty_image] None example_world))) example_logits
       = [1, 2, 3, 4, 4, 3, 2, 1]
   \<and> TOTAL_SKIPPED (snd (keypoint_rcnn_loss float32_sum example_encoder example_logits
                         [visible_image, empty_image] None example_world)) = 0
   \<and> TOTAL_SKIPPED (snd (keypoint_rcnn_loss float32_sum example_encoder example_logits
                         [empty_image, invisible_image] None example_world)) = 1"
proof -
  have s: "storage example_logits < length (heap example_world)"
    by (simp add: ex_defs)
  have n: "\<not> skips example_encoder example_logits [visible_image, empty_image]
               (heap example_world)"
    using ex_nondegenerate by (simp add: skips_def)
  have y: "skips example_encoder example_logits [empty_image, invisible_image]
               (heap example_world)"
    using ex_degenerate ex_readable by (simp add: skips_def ex_shape)
  have t: "tdata (heap example_world) example_logits = [1, 2, 3, 4, 4, 3, 2, 1]"
    by (simp add: tdata_def numel_def ex_defs)
  from loss_leaves_inputs [OF s, of float32_sum example_encoder example_logits _ None]
  show ?thesis
    using s n y t by (simp add: example_world_def)
qed

lemma reports_step:
  "(if b then [(name, c + 1)] else [])
     @ map (\<lambda>k. (name, c + (if b then 1 else 0) + int k)) [1..<Suc m]
   = map (\<lambda>k. (name, (c::int) + int k)) [1..<Suc ((if b then 1 else 0) + m)]"
proof (cases b)
  case False
  then show ?thesis by simp
next
  case True
  have "[1..<Suc (Suc m)] = 1 # map Suc [1..<Suc m]"
    by (simp add: upt_conv_Cons map_Suc_upt del: upt_Suc)
  then show ?thesis
    using True by (simp add: comp_def add.assoc del: upt_Suc)
qed

lemma run_losses_counts:
  "TOTAL_SKIPPED (run_losses fsum enc cs w) = TOTAL_SKIPPED w + int (skipped_batches enc cs)
   \<and> event_storage (run_losses fsum enc cs w)
       = event_storage w
         @ map (\<lambda>k. (''kpts_num_skipped_batches'', TOTAL_SKIPPED w + int k))
             [1..<Suc (skipped_batches enc cs)]"
proof (induction cs arbitrary: w)
  case Nil
  show ?case by simp
next
  case (Cons c cs)
  obtain h logits "is" nz where c: "c = (h, logits, is, nz)" by (cases c)
  let ?w = "snd (keypoint_rcnn_loss fsum enc logits is nz (w\<lparr>heap := h\<rparr>))"
  let ?b = "skips enc logits is h"
  from loss_step [of fsum enc logits "is" nz "w\<lparr>heap := h\<rparr>"]
  have t: "TOTAL_SKIPPED ?w = TOTAL_SKIPPED w + (if ?b then 1 else 0)"
    and e: "event_storage ?w = event_storage w
              @ (if ?b then [(''kpts_num_skipped_batches'', TOTAL_SKIPPED w + 1)] else [])"
    by auto
  from Cons.IH [of ?w]
  have 1: "TOTAL_SKIPPED (run_losses fsum enc cs ?w) = TOTAL_SKIPPED ?w + int (skipped_batches enc cs)"
    and 2: "event_storage (run_losses fsum enc cs ?w)
       = event_storage ?w
         @ map (\<lambda>k. (''kpts_num_skipped_batches'', TOTAL_SKIPPED ?w + int k))
             [1..<Suc (skipped_batches enc cs)]"
    by blast+
  have a: "TOTAL_SKIPPED (run_losses fsum enc (c # cs) w)
             = TOTAL_SKIPPED w + int (skipped_batches enc (c # cs))"
    unfolding c by (simp add: 1 t)
  have b: "event_storage (run_losses fsum enc (c # cs) w)
       = event_storage w
         @ map (\<lambda>k. (''kpts_num_skipped_batches'', TOTAL_SKIPPED w + int k))
             [1..<Suc (skipped_batches enc (c # cs))]"
    unfolding c run_losses.simps skipped_batches.simps 2 e t append_assoc
    by (simp only: reports_step)
  from a b show ?case by simp
qed

text \<open>
  C7. One invocation adds one to the counter and reports the new value when it takes the
  degenerate path, and leaves both as they were otherwise. Over any sequence of
  invocations, the counter ends at its initial value plus the number of invocations that
  took the degenerate path, so it never decreases; the event storage has received, under
  the one name \<open>kpts_num_skipped_batches\<close>, the counter's value after each increment, in
  order; and from the start of the process the counter is the number of degenerate batches
  seen.
\<close>

theorem skip_counter_counts:
  "TOTAL_SKIPPED (snd (keypoint_rcnn_loss fsum enc logits is nz w))
     = TOTAL_SKIPPED w + (if skips enc logits is (heap w) then 1 else 0)
   \<and> TOTAL_SKIPPED (run_losses fsum enc cs w) = TOTAL_SKIPPED w + int (skipped_batches enc cs)
   \<and> TOTAL_SKIPPED w \<le> TOTAL_SKIPPED (run_losses fsum enc cs w)
   \<and> event_storage (run_losses fsum enc cs w)
       = event_storage w
         @ map (\<lambda>k. (''kpts_num_skipped_batches'', TOTAL_SKIPPED w + int k))
             [1..<Suc (skipped_batches enc cs)]
   \<and> TOTAL_SKIPPED (run_losses fsum enc cs process_start) = int (skipped_batches enc cs)"
proof -
  from loss_step [of fsum enc logits "is" nz w]
  have "TOTAL_SKIPPED (snd (keypoint_rcnn_loss fsum enc logits is nz w))
          = TOTAL_SKIPPED w + (if skips enc logits is (heap w) then 1 else 0)"
    by blast
  moreover have "TOTAL_SKIPPED (run_losses fsum enc cs process_start) = int (skipped_batches enc cs)"
    using run_losses_counts [of fsum enc cs process_start] by (simp add: process_start_def)
  ultimately show ?thesis
    using run_losses_counts [of fsum enc cs w] by simp
qed

theorem skip_counter_counts_witness:
  "TOTAL_SKIPPED (run_losses float32_sum example_encoder
      [(heap example_world, example_logits, [empty_image, invisible_image], None),
       (heap example_world, example_logits, [visible_image, empty_image], None),
       (heap example_world, example_logits, [], None)] process_start) = 2
   \<and> event_storage (run_losses float32_sum example_encoder
      [(heap example_world, example_logits, [empty_image, invisible_image], None),
       (heap example_world, example_logits, [visible_image, empty_image], None),
       (heap example_world, example_logits, [], None)] process_start)
      = [(''kpts_num_skipped_batches'', 1), (''kpts_num_skipped_batches'', 2)]"
proof -
  let ?cs = "[(heap example_world, example_logits, [empty_image, invisible_image], None),
       (heap example_world, example_logits, [visible_image, empty_image], None),
       (heap example_world, example_logits, [], None)]"
  have y: "skips example_encoder example_logits [empty_image, invisible_image]
               (heap example_world)"
    using ex_degenerate ex_readable by (simp add: skips_def ex_shape)
  have n: "\<not> skips example_encoder example_logits [visible_image, empty_image]
               (heap example_world)"
    using ex_nondegenerate by (simp add: skips_def)
  have e: "skips example_encoder example_logits [] (heap example_world)"
    by (simp add: skips_def readable_def degenerate_batch_def ex_shape)
  have k: "skipped_batches example_encoder ?cs = 2"
    using y n e by simp
  from skip_counter_counts [of float32_sum example_encoder example_logits "[]" None process_start ?cs]
  show ?thesis
    unfolding k by (simp add: process_start_def upt_conv_Cons)
qed

subsection \<open>The decode stage\<close>

lemma pred_boxes_of_all:
  "list_all (\<lambda>i. get_fields i ''pred_boxes'' \<noteq> None) is \<Longrightarrow>
   pred_boxes_of is = Inr (map (\<lambda>i. the (get_fields i ''pred_boxes'')) is)"
  by (induction "is") (auto simp: getattr_def)

lemma concat_map_nth:
  assumes "\<forall>x\<in>set xs. length (f x) = c" and "m < length xs" and "j < c"
  shows "concat (map f xs) ! (m * c + j) = f (xs ! m) ! j"
  using assms
proof (induction xs arbitrary: m)
  case Nil
  then show ?case by simp
next
  case (Cons a xs)
  show ?case
  proof (cases m)
    case 0
    with Cons.prems show ?thesis by (simp add: nth_append)
  next
    case (Suc m')
    with Cons.prems have "concat (map f xs) ! (m' * c + j) = f (xs ! m') ! j"
      by (intro Cons.IH) auto
    with Suc Cons.prems show ?thesis
      by (simp add: nth_append add.assoc)
  qed
qed

lemma length_concat_fixed:
  "\<forall>x\<in>set xs. length (f x) = c \<Longrightarrow> length (concat (map f xs)) = length xs * c"
  by (induction xs) auto

lemma attach_split_length:
  "length (attach (split_views t rest start (map num_instances is)) is) = length is"
  by (induction "is" arbitrary: start) auto

lemma attach_split_nth:
  "i < length is \<Longrightarrow>
   attach (split_views t rest start (map num_instances is)) is ! i =
     setattr (is ! i) ''pred_keypoints''
       \<lparr>storage = storage t,
        offset = offset t + (start + rows_before is i) * prod_list rest,
        shape = num_instances (is ! i) # rest\<rparr>"
proof (induction "is" arbitrary: start i)
  case Nil
  then show ?case by simp
next
  case (Cons a "is")
  show ?case
  proof (cases i)
    case 0
    then show ?thesis by (simp add: rows_before_def)
  next
    case (Suc i')
    with Cons.prems have "i' < length is" by simp
    from Cons.IH [OF this, of "start + num_instances a"] Suc
    show ?thesis by (simp add: rows_before_def add.assoc)
  qed
qed

lemma rows_before_le:
  assumes "i < length is"
  shows "rows_before is i + num_instances (is ! i) \<le> sum_list (map num_instances is)"
proof -
  have "rows_before is i + num_instances (is ! i) = sum_list (map num_instances (take (Suc i) is))"
    using assms by (simp add: rows_before_def take_Suc_conv_app_nth)
  also have "\<dots> \<le> sum_list (map num_instances (take (Suc i) is))
                   + sum_list (map num_instances (drop (Suc i) is))"
    by simp
  also have "\<dots> = sum_list (map num_instances is)"
    by (metis append_take_drop_id map_append sum_list.append)
  finally show ?thesis .
qed

lemma inference_unfold:
  assumes "decodable dec (heap w) logits is"
  shows "keypoint_rcnn_inference dec logits is w =
     (Inr (),
      attach (split_views \<lparr>storage = length (heap w), offset = 0,
                            shape = [shape logits ! 0, shape logits ! 1, 3]\<rparr>
                [shape logits ! 1, 3] 0 (map num_instances is)) is,
      w\<lparr>heap := heap w @
          [concat (map (\<lambda>i. let q = take 4 (drop (i * 4) (snd (decoded dec (heap w) logits is)))
                             in [q ! 0, q ! 1, q ! 3])
                     [0..<shape logits ! 0 * shape logits ! 1])]\<rparr>)"
proof -
  define D where "D = decoded dec (heap w) logits is"
  have pb: "pred_boxes_of is = Inr (map (\<lambda>i. the (get_fields i ''pred_boxes'')) is)"
    using assms by (simp add: decodable_def pred_boxes_of_all)
  have dd: "dec (tval (heap w) logits)
              (cat_dim0 (map (tval (heap w)) (map (\<lambda>i. the (get_fields i ''pred_boxes'')) is)))
            = D"
    by (simp add: D_def decoded_def comp_def)
  have fD: "fst D = [shape logits ! 0, shape logits ! 1, 4]"
    using assms by (simp add: decodable_def D_def)
  have sc: "select_columns D =
              Inr ([shape logits ! 0, shape logits ! 1, 3],
                   concat (map (\<lambda>i. let q = take 4 (drop (i * 4) (snd D))
                                     in [q ! 0, q ! 1, q ! 3])
                             [0..<shape logits ! 0 * shape logits ! 1]))"
    by (simp add: select_columns_def fD)
  have sm: "sum_list (map num_instances is) = shape logits ! 0"
    using assms by (simp add: decodable_def)
  show ?thesis
    unfolding keypoint_rcnn_inference_def pb sum.case Let_def dd sc
    by (simp add: alloc_def torch_split_def sm D_def)
qed

lemma selected_nth:
  assumes "m < n" and "n * 4 \<le> length d"
  shows "concat (map (\<lambda>i. let q = take 4 (drop (i * 4) d) in [q ! 0, q ! 1, q ! 3]) [0..<n])
           ! (m * 3 + 0) = d ! (m * 4)"
    and "concat (map (\<lambda>i. let q = take 4 (drop (i * 4) d) in [q ! 0, q ! 1, q ! 3]) [0..<n])
           ! (m * 3 + 1) = d ! (m * 4 + 1)"
    and "concat (map (\<lambda>i. let q = take 4 (drop (i * 4) d) in [q ! 0, q ! 1, q ! 3]) [0..<n])
           ! (m * 3 + 2) = d ! (m * 4 + 3)"
proof -
  let ?f = "\<lambda>i. let q = take 4 (drop (i * 4) d) in [q ! 0, q ! 1, q ! 3]"
  have l: "\<forall>x\<in>set [0..<n]. length (?f x) = 3" by (simp add: Let_def)
  have m: "m < length [0..<n]" using assms(1) by simp
  have b: "m * 4 + 3 < length d" using assms by linarith
  have "concat (map ?f [0..<n]) ! (m * 3 + j) = ?f ([0..<n] ! m) ! j" if "j < 3" for j
    by (rule concat_map_nth [OF l m that])
  then have *: "concat (map ?f [0..<n]) ! (m * 3 + j) = ?f m ! j" if "j < 3" for j
    using that assms(1) by simp
  show "concat (map ?f [0..<n]) ! (m * 3 + 0) = d ! (m * 4)"
    using * [of 0] b by (simp add: Let_def)
  show "concat (map ?f [0..<n]) ! (m * 3 + 1) = d ! (m * 4 + 1)"
    using * [of 1] b by (simp add: Let_def)
  show "concat (map ?f [0..<n]) ! (m * 3 + 2) = d ! (m * 4 + 3)"
    using * [of 2] b by (simp add: Let_def)
qed

text \<open>
  C4. For a batch whose instance counts sum to the logits' instance count, the decode
  stage returns \<open>None\<close> and attaches to the collection of every image, under
  \<open>pred_keypoints\<close> and leaving its other fields as they were, a tensor of shape
  \<open>(n, K, 3)\<close> for the image's \<open>n\<close> instances, whose entry for instance \<open>j\<close> and keypoint
  \<open>k\<close> is \<open>(x, y, score)\<close> of the decoder's entry for row \<open>j\<close> after the rows of the
  images before it. Nothing else changes: the tensors stored before the call, the counter
  and the event storage are as they were.
\<close>

theorem inference_attaches_chunks:
  assumes "decodable dec (heap w) logits is"
  shows "\<exists>is' w'. keypoint_rcnn_inference dec logits is w = (Inr (), is', w')
           \<and> length is' = length is
           \<and> take (length (heap w)) (heap w') = heap w
           \<and> TOTAL_SKIPPED w' = TOTAL_SKIPPED w \<and> event_storage w' = event_storage w
           \<and> (\<forall>i<length is.
                 num_instances (is' ! i) = num_instances (is ! i)
                 \<and> (\<exists>t. get_fields (is' ! i) = (get_fields (is ! i))(''pred_keypoints'' \<mapsto> t)
                        \<and> shape t = [num_instances (is ! i), shape logits ! 1, 3]
                        \<and> (\<forall>j<num_instances (is ! i). \<forall>k<(shape logits ! 1).
                              keypoint_at (heap w') t j k
                                = xy_score (decoded_at (decoded dec (heap w) logits is)
                                              (rows_before is i + j) k))))"
proof -
  define R where "R = shape logits ! 0"
  define K where "K = shape logits ! 1"
  define d where "d = snd (decoded dec (heap w) logits is)"
  define sel where
    "sel = concat (map (\<lambda>i. let q = take 4 (drop (i * 4) d) in [q ! 0, q ! 1, q ! 3])
                    [0..<R * K])"
  define T where "T = \<lparr>storage = length (heap w), offset = 0, shape = [R, K, 3]\<rparr>"
  define is' where "is' = attach (split_views T [K, 3] 0 (map num_instances is)) is"
  define w' where "w' = w\<lparr>heap := heap w @ [sel]\<rparr>"
  have run: "keypoint_rcnn_inference dec logits is w = (Inr (), is', w')"
    unfolding is'_def w'_def T_def sel_def d_def R_def K_def
    by (rule inference_unfold [OF assms])
  have len: "length is' = length is"
    unfolding is'_def by (rule attach_split_length)
  have pre: "take (length (heap w)) (heap w') = heap w"
    "TOTAL_SKIPPED w' = TOTAL_SKIPPED w" "event_storage w' = event_storage w"
    by (simp_all add: w'_def)
  have sm: "sum_list (map num_instances is) = R"
    using assms by (simp add: decodable_def R_def)
  have ld: "length d = R * K * 4" and fd: "fst (decoded dec (heap w) logits is) ! 1 = K"
    using assms by (simp_all add: decodable_def d_def R_def K_def)
  have lsel: "length sel = R * K * 3"
    unfolding sel_def by (subst length_concat_fixed [where c = 3]) (simp_all add: Let_def)
  have each: "num_instances (is' ! i) = num_instances (is ! i)
       \<and> (\<exists>t. get_fields (is' ! i) = (get_fields (is ! i))(''pred_keypoints'' \<mapsto> t)
              \<and> shape t = [num_instances (is ! i), K, 3]
              \<and> (\<forall>j<num_instances (is ! i). \<forall>k<K.
                    keypoint_at (heap w') t j k
                      = xy_score (decoded_at (decoded dec (heap w) logits is)
                                    (rows_before is i + j) k)))"
    if i: "i < length is" for i
  proof -
    let ?n = "num_instances (is ! i)"
    let ?rb = "rows_before is i"
    define t where "t = \<lparr>storage = length (heap w), offset = ?rb * (K * 3), shape = [?n, K, 3]\<rparr>"
    have nth: "is' ! i = setattr (is ! i) ''pred_keypoints'' t"
      unfolding is'_def attach_split_nth [OF i] t_def T_def by simp
    have rb: "?rb + ?n \<le> R"
      using rows_before_le [OF i] sm by simp
    have td: "tdata (heap w') t = take (?n * (K * 3)) (drop (?rb * (K * 3)) sel)"
      by (simp add: tdata_def w'_def t_def numel_def)
    have entry: "keypoint_at (heap w') t j k
                   = xy_score (decoded_at (decoded dec (heap w) logits is) (?rb + j) k)"
      if j: "j < ?n" and k: "k < K" for j k
    proof -
      let ?m = "(?rb + j) * K + k"
      have jk: "j * K + k < ?n * K"
      proof -
        have "j * K + k < j * K + K" using k by simp
        also have "\<dots> = Suc j * K" by simp
        also have "\<dots> \<le> ?n * K" using j by (intro mult_le_mono1) simp
        finally show ?thesis .
      qed
      have m: "?m < R * K"
      proof -
        have "?m = ?rb * K + (j * K + k)" by (simp add: algebra_simps)
        also have "\<dots> < ?rb * K + ?n * K" using jk by simp
        also have "\<dots> = (?rb + ?n) * K" by (simp add: algebra_simps)
        also have "\<dots> \<le> R * K" using rb by (intro mult_le_mono1)
        finally show ?thesis .
      qed
      have le: "R * K * 4 \<le> length d" by (simp add: ld)
      have inr: "(j * K + k) * 3 + c < ?n * (K * 3)" if "c < 3" for c
        using jk that by (simp add: algebra_simps)
      have inr2: "?rb * (K * 3) + ?n * (K * 3) \<le> length sel"
      proof -
        have "?rb * (K * 3) + ?n * (K * 3) = (?rb + ?n) * (K * 3)" by (simp add: algebra_simps)
        also have "\<dots> \<le> R * (K * 3)" using rb by (intro mult_le_mono1)
        finally show ?thesis by (simp add: lsel mult.assoc)
      qed
      have rd: "tdata (heap w') t ! ((j * K + k) * 3 + c) = sel ! (?m * 3 + c)" if "c < 3" for c
      proof -
        have "tdata (heap w') t ! ((j * K + k) * 3 + c)
                = sel ! (?rb * (K * 3) + ((j * K + k) * 3 + c))"
          unfolding td using inr [OF that] inr2 by simp
        also have "?rb * (K * 3) + ((j * K + k) * 3 + c) = ?m * 3 + c"
          by (simp add: algebra_simps)
        finally show ?thesis .
      qed
      have s0: "sel ! (?m * 3 + 0) = d ! (?m * 4)"
        and s1: "sel ! (?m * 3 + 1) = d ! (?m * 4 + 1)"
        and s2: "sel ! (?m * 3 + 2) = d ! (?m * 4 + 3)"
        unfolding sel_def by (rule selected_nth [OF m le])+
      have "keypoint_at (heap w') t j k
              = (d ! (?m * 4), d ! (?m * 4 + 1), d ! (?m * 4 + 3))"
        using rd [of 0] rd [of 1] rd [of 2] s0 s1 s2
        by (simp add: keypoint_at_def Let_def t_def)
      also have "\<dots> = xy_score (decoded_at (decoded dec (heap w) logits is) (?rb + j) k)"
        by (simp only: decoded_at_def Let_def fd d_def xy_score.simps)
      finally show ?thesis .
    qed
    show ?thesis
      using nth entry by (auto simp: setattr_def t_def intro!: exI [of _ t])
  qed
  show ?thesis
    using run len pre each unfolding K_def by blast
qed

theorem inference_attaches_chunks_witness:
  "decodable example_decoder (heap inference_world) inference_logits
     [predicted 3 1, predicted 0 2, predicted 5 3]
   \<and> (\<exists>is' w'. keypoint_rcnn_inference example_decoder inference_logits
                   [predicted 3 1, predicted 0 2, predicted 5 3] inference_world
                   = (Inr (), is', w')
          \<and> length is' = 3
          \<and> map (\<lambda>i. map_option shape (get_fields i ''pred_keypoints'')) is'
              = [Some [3, 1, 3], Some [0, 1, 3], Some [5, 1, 3]]
          \<and> map_option (\<lambda>t. keypoint_at (heap w') t 0 0) (get_fields (is' ! 2) ''pred_keypoints'')
              = Some (12, 13, 15))"
proof -
  let ?is = "[predicted 3 1, predicted 0 2, predicted 5 3]"
  have dc: "decodable example_decoder (heap inference_world) inference_logits ?is"
    by (simp add: decodable_def decoded_def example_decoder_def inference_logits_def
        predicted_def)
  have K: "shape inference_logits ! 1 = 1" by (simp add: inference_logits_def)
  from inference_attaches_chunks [OF dc, unfolded K]
  obtain is' w' where run: "keypoint_rcnn_inference example_decoder inference_logits ?is
                              inference_world = (Inr (), is', w')"
    and len: "length is' = length ?is"
    and each: "\<And>i. i < length ?is \<Longrightarrow>
                 (\<exists>t. get_fields (is' ! i) = (get_fields (?is ! i))(''pred_keypoints'' \<mapsto> t)
                        \<and> shape t = [num_instances (?is ! i), 1, 3]
                        \<and> (\<forall>j<num_instances (?is ! i). \<forall>k<1.
                              keypoint_at (heap w') t j k
                                = xy_score (decoded_at (decoded example_decoder
                                     (heap inference_world) inference_logits ?is)
                                              (rows_before ?is i + j) k)))"
    by blast
  have l3: "length is' = 3" using len by simp
  then obtain a b c where abc: "is' = [a, b, c]"
    by (auto simp: length_Suc_conv numeral_3_eq_3)
  from each [of 0] have s0: "map_option shape (get_fields a ''pred_keypoints'') = Some [3, 1, 3]"
    by (auto simp: abc predicted_def)
  from each [of 1] have s1: "map_option shape (get_fields b ''pred_keypoints'') = Some [0, 1, 3]"
    by (auto simp: abc predicted_def)
  from each [of 2] obtain t where
    t: "get_fields c ''pred_keypoints'' = Some t" "shape t = [5, 1, 3]"
    and e: "\<forall>j<5. \<forall>k<1. keypoint_at (heap w') t j k
              = xy_score (decoded_at (decoded example_decoder
                            (heap inference_world) inference_logits ?is)
                            (rows_before ?is 2 + j) k)"
    by (auto simp: abc predicted_def)
  have "keypoint_at (heap w') t 0 0 = (12, 13, 15)"
    using e by (simp add: decoded_at_def decoded_def example_decoder_def rows_before_def
        predicted_def)
  then show ?thesis
    using dc run l3 s0 s1 t by (simp add: abc)
qed

end
